theory Spec2Isabelle
  imports Main
begin

section \<open>JavaScript values\<close>

text \<open>
  The server keeps its state in plain JavaScript values that come from parsed request
  bodies, route parameters and query strings. The handlers test them for truthiness,
  compare them with \<^verbatim>\<open>==\<close>, \<^verbatim>\<open>>=\<close> and \<^verbatim>\<open><=\<close>, and call
  \<^verbatim>\<open>parseFloat\<close>, \<^verbatim>\<open>toLowerCase\<close> and \<^verbatim>\<open>includes\<close> on them, so the
  embedding carries the coercions of the language, with the TypeError they can throw.

  A string is the list of its UTF-16 code units, each a number from 0 to 65535;
  \<open>str\<close> turns an ASCII literal into one. The names of an object's members are kept
  as literals, since the handlers only compare them with the names they write
  themselves.

  A number is an IEEE double. Every finite double is an exact decimal, and \<open>Dec m e\<close>
  stands for \<open>m * 10 ^ e\<close>; \<open>to_double\<close> rounds a decimal to the nearest double, as the
  language does whenever it reads a numeric literal. The two zeros are one value here:
  they are equal, equally falsy and print alike, and the server does nothing else with a
  number.
\<close>

type_synonym jsstring = "int list"

definition str :: "string \<Rightarrow> jsstring" where
  "str s = map of_char s"

datatype jsnum = NaN | PosInf | NegInf | Dec int int

datatype jsval =
    JUndefined
  | JNull
  | JBool bool
  | JNum jsnum
  | JStr jsstring
  | JArr "jsval list"
  | JObj "(string \<times> jsval) list"

text \<open>ToBoolean.\<close>

fun truthy :: "jsval \<Rightarrow> bool" where
  "truthy JUndefined = False"
| "truthy JNull = False"
| "truthy (JBool b) = b"
| "truthy (JNum NaN) = False"
| "truthy (JNum (Dec m e)) = (m \<noteq> 0)"
| "truthy (JNum _) = True"
| "truthy (JStr s) = (s \<noteq> [])"
| "truthy (JArr _) = True"
| "truthy (JObj _) = True"

text \<open>
  A plain object is the list of its members. Reading a member that is not there gives
  \<^verbatim>\<open>undefined\<close>; writing a member keeps an existing key in its place with the new
  value and puts a new key at the end.
\<close>

type_synonym obj = "(string \<times> jsval) list"

definition field :: "obj \<Rightarrow> string \<Rightarrow> jsval" where
  "field kvs k = (case map_of kvs k of Some v \<Rightarrow> v | None \<Rightarrow> JUndefined)"

fun obj_set :: "string \<Rightarrow> jsval \<Rightarrow> obj \<Rightarrow> obj" where
  "obj_set k v [] = [(k, v)]"
| "obj_set k v ((k', v') # kvs) = (if k' = k then (k, v) # kvs else (k', v') # obj_set k v kvs)"

text \<open>
  Property read \<^verbatim>\<open>v[k]\<close> on a request body, for the keys the handlers use
  (\<^verbatim>\<open>id\<close>, \<^verbatim>\<open>name\<close>, \<^verbatim>\<open>price\<close>, \<^verbatim>\<open>units\<close>, \<^verbatim>\<open>taken\<close>, \<^verbatim>\<open>payable\<close>,
  \<^verbatim>\<open>items\<close>): an object yields the member, and an array or a primitive has none of
  these properties. The body parser hands the handlers an object or an array (the empty
  object when nothing was parsed), so no handler reads a property of \<^verbatim>\<open>undefined\<close>.
\<close>

fun get_prop :: "jsval \<Rightarrow> string \<Rightarrow> jsval" where
  "get_prop (JObj kvs) k = field kvs k"
| "get_prop _ k = JUndefined"

text \<open>\<^verbatim>\<open>undefined\<close> and \<^verbatim>\<open>null\<close>, which an array prints as nothing when it is joined.\<close>

fun nullish :: "jsval \<Rightarrow> bool" where
  "nullish JUndefined = True"
| "nullish JNull = True"
| "nullish _ = False"

subsection \<open>Doubles\<close>

text \<open>
  A decimal without trailing zeros in its mantissa; two decimals of the same value have
  the same such form.
\<close>

function strip_zeros :: "int \<Rightarrow> int \<Rightarrow> int \<times> int" where
  "strip_zeros s e =
     (if s \<noteq> 0 \<and> s mod 10 = 0 then strip_zeros (s div 10) (e + 1) else (s, e))"
  by pat_completeness auto

termination
  by (relation "measure (\<lambda>(s, e). nat \<bar>s\<bar>)") auto

declare strip_zeros.simps [simp del]

definition dec_norm :: "int \<Rightarrow> int \<Rightarrow> jsnum" where
  "dec_norm m e =
     (if m = 0 then Dec 0 0
      else (let (s, e') = strip_zeros \<bar>m\<bar> e in Dec (if m < 0 then - s else s) e'))"

text \<open>
  Rounding to the nearest double, ties to the even mantissa. The value is \<open>num / den\<close>;
  \<open>E\<close> is the exponent of its leading bit, the last bit kept has the weight \<open>2 ^ p\<close> (53
  bits, or fewer below the normal range), and \<open>M\<close> is the rounded mantissa. What rounds
  to \<open>2 ^ 1024\<close> or more is an infinity.
\<close>

function bitlen :: "int \<Rightarrow> int" where
  "bitlen n = (if n \<le> 0 then 0 else 1 + bitlen (n div 2))"
  by pat_completeness auto

termination
  by (relation "measure nat") auto

declare bitlen.simps [simp del]

definition round_half_even :: "int \<Rightarrow> int \<Rightarrow> int" where
  "round_half_even num den =
     (let q = num div den; r = num mod den
      in if 2 * r < den then q
         else if den < 2 * r then q + 1
         else if even q then q else q + 1)"

definition to_double :: "int \<Rightarrow> int \<Rightarrow> jsnum" where
  "to_double m e =
     (if m = 0 then Dec 0 0
      else
        (let a = \<bar>m\<bar>;
             num = (if 0 \<le> e then a * 10 ^ nat e else a);
             den = (if 0 \<le> e then 1 else 10 ^ nat (- e));
             b = bitlen num - bitlen den;
             E = (if (if 0 \<le> b then 2 ^ nat b * den \<le> num else den \<le> num * 2 ^ nat (- b))
                  then b else b - 1);
             p = max (E - 52) (- 1074);
             M = (if 0 \<le> p then round_half_even num (den * 2 ^ nat p)
                  else round_half_even (num * 2 ^ nat (- p)) den);
             sgn = (if m < 0 then - 1 else 1)
         in if 971 < p \<or> (p = 971 \<and> 2 ^ 53 \<le> M) then (if m < 0 then NegInf else PosInf)
            else if 0 \<le> p then dec_norm (sgn * M * 2 ^ nat p) 0
            else dec_norm (sgn * M * 5 ^ nat (- p)) p))"

fun round_num :: "jsnum \<Rightarrow> jsnum" where
  "round_num (Dec m e) = to_double m e"
| "round_num n = n"

text \<open>Comparison of finite decimals by value, without leaving the integers.\<close>

definition dec_less :: "int \<Rightarrow> int \<Rightarrow> int \<Rightarrow> int \<Rightarrow> bool" where
  "dec_less m1 e1 m2 e2 =
     (if e1 \<le> e2 then m1 < m2 * 10 ^ nat (e2 - e1) else m1 * 10 ^ nat (e1 - e2) < m2)"

definition dec_eq :: "int \<Rightarrow> int \<Rightarrow> int \<Rightarrow> int \<Rightarrow> bool" where
  "dec_eq m1 e1 m2 e2 =
     (if e1 \<le> e2 then m1 = m2 * 10 ^ nat (e2 - e1) else m1 * 10 ^ nat (e1 - e2) = m2)"

text \<open>Number::equal and Number::lessThan (\<open>None\<close> is the result \<^verbatim>\<open>undefined\<close>).\<close>

fun num_eq :: "jsnum \<Rightarrow> jsnum \<Rightarrow> bool" where
  "num_eq NaN _ = False"
| "num_eq _ NaN = False"
| "num_eq PosInf PosInf = True"
| "num_eq NegInf NegInf = True"
| "num_eq (Dec m1 e1) (Dec m2 e2) = dec_eq m1 e1 m2 e2"
| "num_eq _ _ = False"

fun num_less :: "jsnum \<Rightarrow> jsnum \<Rightarrow> bool option" where
  "num_less NaN _ = None"
| "num_less _ NaN = None"
| "num_less PosInf _ = Some False"
| "num_less _ PosInf = Some True"
| "num_less _ NegInf = Some False"
| "num_less NegInf _ = Some True"
| "num_less (Dec m1 e1) (Dec m2 e2) = Some (dec_less m1 e1 m2 e2)"

subsection \<open>Strings and numbers\<close>

definition is_digit :: "int \<Rightarrow> bool" where
  "is_digit c = (48 \<le> c \<and> c \<le> 57)"

definition digit_val :: "int \<Rightarrow> int" where
  "digit_val c = c - 48"

definition digit_char :: "int \<Rightarrow> int" where
  "digit_char d = 48 + d"

text \<open>The value of a string of decimal digits, and the decimal digits of a number.\<close>

definition digits_val :: "jsstring \<Rightarrow> int" where
  "digits_val ds = foldl (\<lambda>a c. 10 * a + digit_val c) 0 ds"

function digits_of :: "int \<Rightarrow> jsstring" where
  "digits_of n = (if n < 10 then [digit_char n] else digits_of (n div 10) @ [digit_char (n mod 10)])"
  by pat_completeness auto

termination
  by (relation "measure nat") auto

declare digits_of.simps [simp del]

text \<open>Digits of the radix literals \<^verbatim>\<open>0x\<close>, \<^verbatim>\<open>0o\<close> and \<^verbatim>\<open>0b\<close>.\<close>

definition radix_digit :: "int \<Rightarrow> int \<Rightarrow> int option" where
  "radix_digit b c =
     (let v = (if 48 \<le> c \<and> c \<le> 57 then Some (c - 48)
               else if 97 \<le> c \<and> c \<le> 102 then Some (c - 87)
               else if 65 \<le> c \<and> c \<le> 70 then Some (c - 55)
               else None)
      in case v of None \<Rightarrow> None | Some d \<Rightarrow> if d < b then Some d else None)"

fun radix_val :: "int \<Rightarrow> int \<Rightarrow> jsstring \<Rightarrow> int option" where
  "radix_val b acc [] = Some acc"
| "radix_val b acc (c # cs) =
     (case radix_digit b c of None \<Rightarrow> None | Some d \<Rightarrow> radix_val b (b * acc + d) cs)"

text \<open>
  White space and line terminators: tab, line feed, vertical tab, form feed, carriage
  return, the space separators of Unicode, the line and paragraph separators and the
  byte order mark.
\<close>

definition is_ws :: "int \<Rightarrow> bool" where
  "is_ws c =
     (c \<in> {0x9, 0xA, 0xB, 0xC, 0xD, 0x20, 0xA0, 0x1680, 0x2028, 0x2029, 0x202F, 0x205F,
            0x3000, 0xFEFF}
      \<or> (0x2000 \<le> c \<and> c \<le> 0x200A))"

definition trim :: "jsstring \<Rightarrow> jsstring" where
  "trim s = rev (dropWhile is_ws (rev (dropWhile is_ws s)))"

text \<open>
  The longest prefix of a string that is a decimal literal (StrDecimalLiteral): an
  optional sign, then \<^verbatim>\<open>Infinity\<close> or digits with an optional fraction and an optional
  exponent. The result is the literal's exact value and the rest of the string; \<open>None\<close>
  when no prefix is a literal.
\<close>

definition str_exponent :: "jsstring \<Rightarrow> int \<times> jsstring" where
  "str_exponent r =
     (case r of
        [] \<Rightarrow> (0, r)
      | c # r1 \<Rightarrow>
          if c = of_char (CHR ''e'') \<or> c = of_char (CHR ''E'') then
            (let neg = (r1 \<noteq> [] \<and> hd r1 = of_char (CHR ''-''));
                 r2 = (if r1 \<noteq> [] \<and> (hd r1 = of_char (CHR ''-'') \<or> hd r1 = of_char (CHR ''+''))
                       then tl r1 else r1);
                 ds = takeWhile is_digit r2
             in if ds = [] then (0, r)
                else ((if neg then - digits_val ds else digits_val ds),
                      dropWhile is_digit r2))
          else (0, r))"

definition str_decimal :: "jsstring \<Rightarrow> (jsnum \<times> jsstring) option" where
  "str_decimal s =
     (let neg = (s \<noteq> [] \<and> hd s = of_char (CHR ''-''));
          r = (if s \<noteq> [] \<and> (hd s = of_char (CHR ''-'') \<or> hd s = of_char (CHR ''+''))
               then tl s else s)
      in if take 8 r = str ''Infinity'' then Some (if neg then NegInf else PosInf, drop 8 r)
         else
           (let ipart = takeWhile is_digit r;
                r1 = dropWhile is_digit r;
                dot = (r1 \<noteq> [] \<and> hd r1 = of_char (CHR ''.''));
                fpart = (if dot then takeWhile is_digit (tl r1) else []);
                r2 = (if dot then dropWhile is_digit (tl r1) else r1)
            in if ipart = [] \<and> fpart = [] then None
               else
                 (let (ex, r3) = str_exponent r2;
                      m = digits_val (ipart @ fpart)
                  in Some (Dec (if neg then - m else m) (ex - int (length fpart)), r3))))"

text \<open>
  StringToNumber, the conversion that \<^verbatim>\<open>==\<close> and the relational operators use: the
  whole trimmed string has to be a literal, and its value is rounded to a double.
\<close>

definition radix_literal :: "int \<Rightarrow> jsstring \<Rightarrow> jsnum" where
  "radix_literal b ds =
     (if ds = [] then NaN
      else case radix_val b 0 ds of None \<Rightarrow> NaN | Some n \<Rightarrow> to_double n 0)"

definition string_to_number :: "jsstring \<Rightarrow> jsnum" where
  "string_to_number s =
     (let t = trim s
      in if t = [] then Dec 0 0
         else if take 2 t = str ''0x'' \<or> take 2 t = str ''0X'' then radix_literal 16 (drop 2 t)
         else if take 2 t = str ''0o'' \<or> take 2 t = str ''0O'' then radix_literal 8 (drop 2 t)
         else if take 2 t = str ''0b'' \<or> take 2 t = str ''0B'' then radix_literal 2 (drop 2 t)
         else case str_decimal t of
                Some (v, []) \<Rightarrow> round_num v
              | _ \<Rightarrow> NaN)"

text \<open>
  Number::toString. The digits are those of the shortest decimal that rounds to the
  number: for 1, 2, ... significant digits the decimals just below and just above the
  number are tried, and of two that both round to it the nearer one is taken, the even
  one on a tie. \<open>candidate sx ex d\<close> tries the decimals that drop the last \<open>d\<close> digits of
  the number \<open>sx * 10 ^ ex\<close>.
\<close>

definition candidate :: "int \<Rightarrow> int \<Rightarrow> nat \<Rightarrow> (int \<times> int) option" where
  "candidate sx ex d =
     (let lo = sx div 10 ^ d;
          r = sx mod 10 ^ d;
          j = ex + int d;
          ok_lo = num_eq (to_double lo j) (Dec sx ex);
          ok_hi = (r \<noteq> 0 \<and> num_eq (to_double (lo + 1) j) (Dec sx ex))
      in if ok_lo \<and> ok_hi
         then (if 2 * r < 10 ^ d \<or> (2 * r = 10 ^ d \<and> even lo) then Some (lo, j) else Some (lo + 1, j))
         else if ok_lo then Some (lo, j)
         else if ok_hi then Some (lo + 1, j)
         else None)"

fun shortest :: "int \<Rightarrow> int \<Rightarrow> nat \<Rightarrow> int \<times> int" where
  "shortest sx ex 0 = (sx, ex)"
| "shortest sx ex (Suc d) =
     (case candidate sx ex (Suc d) of Some c \<Rightarrow> c | None \<Rightarrow> shortest sx ex d)"

text \<open>
  The digit string \<open>ds\<close> of the decimal without its trailing zeros, and the position
  \<open>n\<close> of the decimal point, decide between plain and exponent notation.
\<close>

definition pos_to_string :: "int \<Rightarrow> int \<Rightarrow> jsstring" where
  "pos_to_string s0 e0 =
     (let (s, e) = strip_zeros s0 e0;
          ds = digits_of s;
          k = int (length ds);
          n = k + e
      in if k \<le> n \<and> n \<le> 21 then ds @ replicate (nat (n - k)) (of_char (CHR ''0''))
         else if 0 < n \<and> n \<le> 21 then take (nat n) ds @ str ''.'' @ drop (nat n) ds
         else if -6 < n \<and> n \<le> 0
           then str ''0.'' @ replicate (nat (- n)) (of_char (CHR ''0'')) @ ds
         else
           (let x = n - 1;
                es = (if x < 0 then str ''-'' else str ''+'') @ digits_of \<bar>x\<bar>
            in if k = 1 then ds @ str ''e'' @ es
               else take 1 ds @ str ''.'' @ drop 1 ds @ str ''e'' @ es))"

definition shortest_digits :: "int \<Rightarrow> int \<Rightarrow> int \<times> int" where
  "shortest_digits a e =
     (let (sx, ex) = strip_zeros a e
      in shortest sx ex (length (digits_of sx) - 1))"

fun number_to_string :: "jsnum \<Rightarrow> jsstring" where
  "number_to_string NaN = str ''NaN''"
| "number_to_string PosInf = str ''Infinity''"
| "number_to_string NegInf = str ''-Infinity''"
| "number_to_string (Dec m e) =
     (if m = 0 then str ''0''
      else (let (s, j) = shortest_digits \<bar>m\<bar> e
            in (if m < 0 then str ''-'' else []) @ pos_to_string s j))"

subsection \<open>Coercions\<close>

text \<open>
  A coercion that has to turn an object into a primitive value calls the object's
  \<^verbatim>\<open>valueOf\<close> and \<^verbatim>\<open>toString\<close>. For the objects the server holds, which come out of
  the body parser, the inherited \<^verbatim>\<open>valueOf\<close> returns the object itself, and the
  inherited \<^verbatim>\<open>toString\<close> gives \<^verbatim>\<open>[object Object]\<close> for a plain object and joins the
  elements of an array with commas, an element that is \<^verbatim>\<open>undefined\<close> or \<^verbatim>\<open>null\<close>
  giving the empty string. A member of the object named \<^verbatim>\<open>toString\<close> hides the
  inherited method and, being data, cannot be called: the coercion then throws a
  TypeError. A thrown error is the result \<open>None\<close>.
\<close>

fun join :: "'a list \<Rightarrow> 'a list list \<Rightarrow> 'a list" where
  "join sep [] = []"
| "join sep [x] = x"
| "join sep (x # y # ys) = x @ sep @ join sep (y # ys)"

fun all_some :: "'a option list \<Rightarrow> 'a list option" where
  "all_some [] = Some []"
| "all_some (None # xs) = None"
| "all_some (Some x # xs) = map_option (Cons x) (all_some xs)"

fun to_string :: "jsval \<Rightarrow> jsstring option" where
  "to_string JUndefined = Some (str ''undefined'')"
| "to_string JNull = Some (str ''null'')"
| "to_string (JBool b) = Some (if b then str ''true'' else str ''false'')"
| "to_string (JNum n) = Some (number_to_string n)"
| "to_string (JStr s) = Some s"
| "to_string (JArr xs) =
     map_option (join (str '',''))
       (all_some (map (\<lambda>x. if nullish x then Some [] else to_string x) xs))"
| "to_string (JObj kvs) =
     (if map_of kvs ''toString'' = None then Some (str ''[object Object]'') else None)"

text \<open>ToNumber; an array or object goes through its string.\<close>

fun to_number :: "jsval \<Rightarrow> jsnum option" where
  "to_number JUndefined = Some NaN"
| "to_number JNull = Some (Dec 0 0)"
| "to_number (JBool b) = Some (if b then Dec 1 0 else Dec 0 0)"
| "to_number (JNum n) = Some n"
| "to_number (JStr s) = Some (string_to_number s)"
| "to_number v = map_option string_to_number (to_string v)"

text \<open>
  \<^verbatim>\<open>x == s\<close> for a string \<open>s\<close> on the right, as in \<^verbatim>\<open>p.id == req.params.id\<close>:
  a string compares as a string, a number or boolean compares with the number the
  string converts to, an array or object compares through its own string, and
  \<^verbatim>\<open>undefined\<close> and \<^verbatim>\<open>null\<close> equal no string.
\<close>

fun loose_eq_str :: "jsval \<Rightarrow> jsstring \<Rightarrow> bool option" where
  "loose_eq_str JUndefined s = Some False"
| "loose_eq_str JNull s = Some False"
| "loose_eq_str (JBool b) s = Some (num_eq (if b then Dec 1 0 else Dec 0 0) (string_to_number s))"
| "loose_eq_str (JNum n) s = Some (num_eq n (string_to_number s))"
| "loose_eq_str (JStr t) s = Some (t = s)"
| "loose_eq_str v s = map_option (\<lambda>t. t = s) (to_string v)"

text \<open>
  \<^verbatim>\<open>x >= y\<close> and \<^verbatim>\<open>x <= y\<close> for a number \<open>y\<close> on the right, as in
  \<^verbatim>\<open>p.price >= parseFloat(minPrice)\<close>: the left side converts to a number, and a
  comparison with \<^verbatim>\<open>NaN\<close> is false.
\<close>

definition js_ge :: "jsval \<Rightarrow> jsnum \<Rightarrow> bool option" where
  "js_ge x y =
     map_option (\<lambda>n. case num_less n y of Some False \<Rightarrow> True | _ \<Rightarrow> False) (to_number x)"

definition js_le :: "jsval \<Rightarrow> jsnum \<Rightarrow> bool option" where
  "js_le x y =
     map_option (\<lambda>n. case num_less y n of Some False \<Rightarrow> True | _ \<Rightarrow> False) (to_number x)"

text \<open>
  \<^verbatim>\<open>parseFloat\<close>: the argument's string, leading white space dropped, the longest
  prefix that is a literal, rounded to a double.
\<close>

definition parseFloat :: "jsval \<Rightarrow> jsnum option" where
  "parseFloat v =
     map_option
       (\<lambda>t. case str_decimal (dropWhile is_ws t) of
               Some (n, _) \<Rightarrow> round_num n
             | None \<Rightarrow> NaN)
       (to_string v)"

text \<open>
  \<^verbatim>\<open>toLowerCase\<close> and \<^verbatim>\<open>includes\<close> on strings. In a string of ASCII characters the
  letters \<^verbatim>\<open>A\<close> to \<^verbatim>\<open>Z\<close> are replaced by \<^verbatim>\<open>a\<close> to \<^verbatim>\<open>z\<close>. For any other string the
  result is what the case mapping of the Unicode character database gives; that table
  is not part of the program, and \<open>unicode_lower\<close> stands for it without saying
  anything about it.
\<close>

definition ascii_lower :: "int \<Rightarrow> int" where
  "ascii_lower c = (if 65 \<le> c \<and> c \<le> 90 then c + 32 else c)"

definition unicode_lower :: "jsstring \<Rightarrow> jsstring" where
  "unicode_lower = undefined"

definition toLowerCase :: "jsstring \<Rightarrow> jsstring" where
  "toLowerCase s = (if list_all (\<lambda>c. c < 128) s then map ascii_lower s else unicode_lower s)"

fun starts_with :: "jsstring \<Rightarrow> jsstring \<Rightarrow> bool" where
  "starts_with s [] = True"
| "starts_with [] (c # cs) = False"
| "starts_with (d # ds) (c # cs) = (d = c \<and> starts_with ds cs)"

fun str_includes :: "jsstring \<Rightarrow> jsstring \<Rightarrow> bool" where
  "str_includes [] sub = (sub = [])"
| "str_includes (d # ds) sub = (starts_with (d # ds) sub \<or> str_includes ds sub)"

text \<open>
  \<^verbatim>\<open>filter\<close>, \<^verbatim>\<open>find\<close> and \<^verbatim>\<open>findIndex\<close> of an array, for a callback that may
  throw: the elements are visited in order, and an error thrown by the callback ends the
  call. \<^verbatim>\<open>find\<close> and \<^verbatim>\<open>findIndex\<close> stop at the first element the callback accepts;
  their inner \<open>None\<close> is \<^verbatim>\<open>undefined\<close> and \<^verbatim>\<open>-1\<close>.
\<close>

fun js_filter :: "('a \<Rightarrow> bool option) \<Rightarrow> 'a list \<Rightarrow> 'a list option" where
  "js_filter P [] = Some []"
| "js_filter P (x # xs) =
     (case P x of
        None \<Rightarrow> None
      | Some b \<Rightarrow> map_option (\<lambda>ys. if b then x # ys else ys) (js_filter P xs))"

fun js_find :: "('a \<Rightarrow> bool option) \<Rightarrow> 'a list \<Rightarrow> 'a option option" where
  "js_find P [] = Some None"
| "js_find P (x # xs) =
     (case P x of
        None \<Rightarrow> None
      | Some b \<Rightarrow> if b then Some (Some x) else js_find P xs)"

fun findIndex :: "('a \<Rightarrow> bool option) \<Rightarrow> 'a list \<Rightarrow> nat option option" where
  "findIndex P [] = Some None"
| "findIndex P (x # xs) =
     (case P x of
        None \<Rightarrow> None
      | Some b \<Rightarrow> if b then Some (Some 0) else map_option (map_option Suc) (findIndex P xs))"

text \<open>\<^verbatim>\<open>splice(index, 1)\<close>: the list without the element at \<open>index\<close>.\<close>

definition splice1 :: "nat \<Rightarrow> 'a list \<Rightarrow> 'a list" where
  "splice1 i xs = take i xs @ drop (Suc i) xs"

text \<open>
  Object spread \<^verbatim>\<open>{...v}\<close>: the members of an object, the indexed elements of an array.
\<close>

fun spread :: "jsval \<Rightarrow> obj" where
  "spread (JObj kvs) = kvs"
| "spread (JArr xs) = zip (map (\<lambda>i. map char_of (digits_of (int i))) [0..<length xs]) xs"
| "spread _ = []"

text \<open>A \<^verbatim>\<open>Date\<close> object is kept as its time value.\<close>

definition date :: "int \<Rightarrow> jsval" where
  "date now = JNum (Dec now 0)"

section \<open>The server state\<close>

text \<open>
  The module-level variables \<^verbatim>\<open>products\<close>, \<^verbatim>\<open>orders\<close> and \<^verbatim>\<open>connectionLogs\<close>, and
  for each socket the variables its connection handler closes over: \<^verbatim>\<open>clientInfo\<close>,
  \<^verbatim>\<open>missedPings\<close> and \<^verbatim>\<open>heartbeatInterval\<close>. The interval is \<open>True\<close> while it is
  scheduled and \<open>False\<close> once \<^verbatim>\<open>clearInterval\<close> has run. A socket is named by its
  position in \<open>sockets\<close>, which stands for the identifier the transport library assigns;
  a socket that has gone stays in the list with \<open>connected = False\<close>.

  What the transport library does is written out where the code relies on it:
  \<^item> \<open>outbox\<close> holds the events sent to the client. \<^verbatim>\<open>socket.emit\<close> on a socket that is
    no longer connected sends nothing; the call is recorded in \<open>discarded\<close>.
  \<^item> \<^verbatim>\<open>io.emit\<close> sends to every socket that is connected at the call.
  \<^item> \<^verbatim>\<open>socket.disconnect(true)\<close> runs the socket's \<^verbatim>\<open>disconnect\<close> listeners at once,
    with the reason \<^verbatim>\<open>server namespace disconnect\<close>.

  Time is the clock reading each event carries (what \<^verbatim>\<open>new Date()\<close> returns while it is
  handled); one tick of a socket's interval stands for one probe interval gone by. The
  functions below that take a socket's position are only run, by \<open>step\<close>, for a socket
  that exists.
\<close>

type_synonym message = "string \<times> jsval list"

record client_info =
  client_id :: nat
  ip :: string
  connectedAt :: int

record log_entry =
  event :: string
  client :: client_info
  disconnectedAt :: "int option"
  reason :: "string option"

record socket =
  clientInfo :: client_info
  missedPings :: nat
  heartbeatInterval :: bool
  connected :: bool
  outbox :: "message list"
  discarded :: "message list"

record server =
  products :: "obj list"
  orders :: "obj list"
  connectionLogs :: "log_entry list"
  sockets :: "socket list"

record response =
  status :: nat
  json :: jsval

definition init_server :: server where
  "init_server = \<lparr>products = [], orders = [], connectionLogs = [], sockets = []\<rparr>"

subsection \<open>Sending\<close>

definition socket_emit :: "nat \<Rightarrow> string \<Rightarrow> jsval list \<Rightarrow> server \<Rightarrow> server" where
  "socket_emit sid ev args s =
     (let k = sockets s ! sid
      in s\<lparr>sockets := (sockets s)[sid :=
           (if connected k then k\<lparr>outbox := outbox k @ [(ev, args)]\<rparr>
            else k\<lparr>discarded := discarded k @ [(ev, args)]\<rparr>)]\<rparr>)"

definition deliver :: "message \<Rightarrow> socket \<Rightarrow> socket" where
  "deliver m k = (if connected k then k\<lparr>outbox := outbox k @ [m]\<rparr> else k)"

definition io_emit :: "string \<Rightarrow> jsval list \<Rightarrow> server \<Rightarrow> server" where
  "io_emit ev args s = s\<lparr>sockets := map (deliver (ev, args)) (sockets s)\<rparr>"

text \<open>What a socket has been sent once a message has been published.\<close>

abbreviation after_publish :: "message \<Rightarrow> socket \<Rightarrow> message list" where
  "after_publish m k \<equiv> (if connected k then outbox k @ [m] else outbox k)"

subsection \<open>The connection handler and the heartbeat\<close>

text \<open>
  \<^verbatim>\<open>io.on('connection', ...)\<close>: the log entry, the snapshot of \<^verbatim>\<open>products\<close> for the new
  socket alone, a counter at zero and a running interval.
\<close>

definition on_connection :: "string \<Rightarrow> int \<Rightarrow> server \<Rightarrow> server" where
  "on_connection addr now s =
     (let sid = length (sockets s);
          info = \<lparr>client_id = sid, ip = addr, connectedAt = now\<rparr>;
          k = \<lparr>clientInfo = info, missedPings = 0, heartbeatInterval = True, connected = True,
               outbox = [], discarded = []\<rparr>;
          s1 = s\<lparr>connectionLogs := connectionLogs s @
                 [\<lparr>event = ''connect'', client = info, disconnectedAt = None, reason = None\<rparr>],
               sockets := sockets s @ [k]\<rparr>
      in socket_emit sid ''init_products'' [JArr (map JObj (products s1))] s1)"

text \<open>\<^verbatim>\<open>socket.on('disconnect', (reason) => ...)\<close>.\<close>

definition on_disconnect :: "nat \<Rightarrow> string \<Rightarrow> int \<Rightarrow> server \<Rightarrow> server" where
  "on_disconnect sid why now s =
     (let k = sockets s ! sid
      in s\<lparr>sockets := (sockets s)[sid := k\<lparr>heartbeatInterval := False\<rparr>],
           connectionLogs := connectionLogs s @
             [\<lparr>event = ''disconnect'', client = clientInfo k, disconnectedAt = Some now,
               reason = Some why\<rparr>]\<rparr>)"

text \<open>
  The transport closes a socket: it is no longer connected, then its \<^verbatim>\<open>disconnect\<close>
  listener runs. Closing a socket that is already closed does nothing.
\<close>

definition close_socket :: "nat \<Rightarrow> string \<Rightarrow> int \<Rightarrow> server \<Rightarrow> server" where
  "close_socket sid why now s =
     (let k = sockets s ! sid
      in if connected k
         then on_disconnect sid why now (s\<lparr>sockets := (sockets s)[sid := k\<lparr>connected := False\<rparr>]\<rparr>)
         else s)"

definition server_disconnect_reason :: string where
  "server_disconnect_reason = ''server namespace disconnect''"

definition socket_disconnect :: "nat \<Rightarrow> int \<Rightarrow> server \<Rightarrow> server" where
  "socket_disconnect sid now s = close_socket sid server_disconnect_reason now s"

text \<open>The callback of \<^verbatim>\<open>setInterval\<close>, one run.\<close>

definition heartbeat :: "nat \<Rightarrow> int \<Rightarrow> server \<Rightarrow> server" where
  "heartbeat sid now s =
     (let s1 = (if missedPings (sockets s ! sid) > 2 then socket_disconnect sid now s else s);
          k = sockets s1 ! sid;
          s2 = s1\<lparr>sockets := (sockets s1)[sid := k\<lparr>missedPings := missedPings k + 1\<rparr>]\<rparr>
      in socket_emit sid ''ping'' [] s2)"

text \<open>\<^verbatim>\<open>socket.on('pong', ...)\<close>.\<close>

definition on_pong :: "nat \<Rightarrow> server \<Rightarrow> server" where
  "on_pong sid s = s\<lparr>sockets := (sockets s)[sid := (sockets s ! sid)\<lparr>missedPings := 0\<rparr>]\<rparr>"

subsection \<open>The routes\<close>

text \<open>
  The routes that change or read the store. The request log, the two status endpoints
  and the fallback for unknown paths do not touch \<^verbatim>\<open>products\<close>, \<^verbatim>\<open>orders\<close>, the
  connection log or any socket, and are left out.
\<close>

definition requiredFields :: "string list" where
  "requiredFields = [''id'', ''name'', ''price'', ''units'', ''taken'', ''payable'']"

text \<open>\<^verbatim>\<open>POST /product\<close>.\<close>

definition post_product :: "int \<Rightarrow> jsval \<Rightarrow> server \<Rightarrow> server \<times> response" where
  "post_product now b s =
     (let missingFields = filter (\<lambda>f. \<not> truthy (get_prop b f)) requiredFields
      in if length missingFields > 0
         then (s, \<lparr>status = 400,
                   json = JObj [(''success'', JBool False),
                                (''error'', JStr (str (''Missing required fields: '' @ join '', '' missingFields)))]\<rparr>)
         else
           (let product = obj_set ''addedAt'' (date now) (spread b)
            in (io_emit ''new_product'' [JObj product] (s\<lparr>products := products s @ [product]\<rparr>),
                \<lparr>status = 201,
                 json = JObj [(''success'', JBool True), (''product'', JObj product)]\<rparr>)))"

text \<open>\<^verbatim>\<open>POST /products/reset\<close>.\<close>

definition reset_products :: "server \<Rightarrow> server \<times> response" where
  "reset_products s =
     (io_emit ''products_reset'' [] (s\<lparr>products := []\<rparr>),
      \<lparr>status = 200,
       json = JObj [(''success'', JBool True), (''message'', JStr (str ''All products cleared''))]\<rparr>)"

text \<open>
  A handler that throws is cut short, and the error middleware answers in its place
  (the \<^verbatim>\<open>details\<close> member of its answer, present in development mode only, is left
  out).
\<close>

definition internal_server_error :: response where
  "internal_server_error =
     \<lparr>status = 500,
      json = JObj [(''success'', JBool False), (''error'', JStr (str ''Internal server error''))]\<rparr>"

text \<open>
  \<^verbatim>\<open>GET /product\<close>. The three query parameters are \<^verbatim>\<open>undefined\<close> when absent. The
  callback of the name filter calls \<^verbatim>\<open>toLowerCase\<close> on the product's name and on the
  parameter: when either is not a string the call throws a TypeError. The callbacks of
  the price filters call \<^verbatim>\<open>parseFloat\<close> on the parameter and compare the product's
  price with the result, and either step can throw. \<open>filter_if\<close> is one statement
  \<^verbatim>\<open>if (param) { filteredProducts = filteredProducts.filter(...) }\<close>: each filter
  runs on what the one before it has kept, and only when its parameter is truthy.
\<close>

definition name_matches :: "jsval \<Rightarrow> obj \<Rightarrow> bool option" where
  "name_matches name p =
     (case (field p ''name'', name) of
        (JStr pn, JStr n) \<Rightarrow> Some (str_includes (toLowerCase pn) (toLowerCase n))
      | _ \<Rightarrow> None)"

definition at_least :: "jsval \<Rightarrow> obj \<Rightarrow> bool option" where
  "at_least minPrice p =
     (case parseFloat minPrice of None \<Rightarrow> None | Some lo \<Rightarrow> js_ge (field p ''price'') lo)"

definition at_most :: "jsval \<Rightarrow> obj \<Rightarrow> bool option" where
  "at_most maxPrice p =
     (case parseFloat maxPrice of None \<Rightarrow> None | Some hi \<Rightarrow> js_le (field p ''price'') hi)"

definition filter_if :: "jsval \<Rightarrow> (obj \<Rightarrow> bool option) \<Rightarrow> obj list option \<Rightarrow> obj list option" where
  "filter_if param P ps =
     (case ps of
        None \<Rightarrow> None
      | Some xs \<Rightarrow> if truthy param then js_filter P xs else Some xs)"

definition get_products :: "jsval \<Rightarrow> jsval \<Rightarrow> jsval \<Rightarrow> server \<Rightarrow> server \<times> response" where
  "get_products name minPrice maxPrice s =
     (case filter_if maxPrice (at_most maxPrice)
             (filter_if minPrice (at_least minPrice)
               (filter_if name (name_matches name) (Some (products s)))) of
        None \<Rightarrow> (s, internal_server_error)
      | Some filteredProducts \<Rightarrow>
          (s, \<lparr>status = 200,
                json = JObj [(''success'', JBool True),
                             (''count'', JNum (Dec (int (length filteredProducts)) 0)),
                             (''data'', JArr (map JObj filteredProducts))]\<rparr>))"

text \<open>
  \<^verbatim>\<open>GET /product/:id\<close> and \<^verbatim>\<open>DELETE /product/:id\<close>; the parameter is a string. The
  comparison \<^verbatim>\<open>p.id == req.params.id\<close> throws when it has to coerce an id that cannot
  be coerced.
\<close>

definition not_found :: response where
  "not_found =
     \<lparr>status = 404,
      json = JObj [(''success'', JBool False), (''error'', JStr (str ''Product not found''))]\<rparr>"

definition get_product :: "jsstring \<Rightarrow> server \<Rightarrow> server \<times> response" where
  "get_product pid s =
     (case js_find (\<lambda>p. loose_eq_str (field p ''id'') pid) (products s) of
        None \<Rightarrow> (s, internal_server_error)
      | Some None \<Rightarrow> (s, not_found)
      | Some (Some product) \<Rightarrow>
          (s, \<lparr>status = 200, json = JObj [(''success'', JBool True), (''data'', JObj product)]\<rparr>))"

definition delete_product :: "jsstring \<Rightarrow> server \<Rightarrow> server \<times> response" where
  "delete_product pid s =
     (case findIndex (\<lambda>p. loose_eq_str (field p ''id'') pid) (products s) of
        None \<Rightarrow> (s, internal_server_error)
      | Some None \<Rightarrow> (s, not_found)
      | Some (Some i) \<Rightarrow>
          (let deletedProduct = products s ! i
           in (io_emit ''product_deleted'' [field deletedProduct ''id'']
                 (s\<lparr>products := splice1 i (products s)\<rparr>),
               \<lparr>status = 200,
                json = JObj [(''success'', JBool True), (''data'', JObj deletedProduct)]\<rparr>)))"

text \<open>
  \<^verbatim>\<open>POST /checkout\<close>. The body is refused unless its \<^verbatim>\<open>items\<close> is truthy, is an
  array and has an element.
\<close>

fun nonempty_array :: "jsval \<Rightarrow> bool" where
  "nonempty_array (JArr xs) = (xs \<noteq> [])"
| "nonempty_array _ = False"

definition checkout :: "int \<Rightarrow> jsval \<Rightarrow> server \<Rightarrow> server \<times> response" where
  "checkout now b s =
     (if \<not> nonempty_array (get_prop b ''items'')
      then (s, \<lparr>status = 400,
                json = JObj [(''success'', JBool False),
                             (''error'', JStr (str ''Order must contain at least one item''))]\<rparr>)
      else
        (let order = obj_set ''status'' (JStr (str ''pending''))
                       (obj_set ''createdAt'' (date now)
                         (obj_set ''id'' (JStr (str ''order_'' @ number_to_string (Dec now 0)))
                           (spread b)))
         in (io_emit ''new_order'' [JObj order] (s\<lparr>orders := orders s @ [order]\<rparr>),
             \<lparr>status = 201, json = JObj [(''success'', JBool True), (''order'', JObj order)]\<rparr>)))"

subsection \<open>Events\<close>

text \<open>
  What can happen to the server, one event at a time: a client connects, a socket's
  interval fires, a \<^verbatim>\<open>pong\<close> arrives, the transport reports that a socket has gone (the
  client left, the transport closed or failed, the transport's own ping timed out), a
  socket reports an error (the listener only prints it), or a request arrives. An
  interval fires only while it is scheduled, and a socket that is gone receives nothing.
\<close>

datatype request =
    PostProduct jsval
  | ResetProducts
  | GetProducts jsval jsval jsval
  | GetProduct jsstring
  | DeleteProduct jsstring
  | Checkout jsval

datatype event =
    Connection string int
  | Tick nat int
  | Pong nat
  | Disconnect nat string int
  | SocketError nat
  | Request request int

fun handle :: "request \<Rightarrow> int \<Rightarrow> server \<Rightarrow> server \<times> response" where
  "handle (PostProduct b) now s = post_product now b s"
| "handle ResetProducts now s = reset_products s"
| "handle (GetProducts name minPrice maxPrice) now s = get_products name minPrice maxPrice s"
| "handle (GetProduct pid) now s = get_product pid s"
| "handle (DeleteProduct pid) now s = delete_product pid s"
| "handle (Checkout b) now s = checkout now b s"

fun step :: "server \<Rightarrow> event \<Rightarrow> server" where
  "step s (Connection addr now) = on_connection addr now s"
| "step s (Tick sid now) =
     (if sid < length (sockets s) \<and> heartbeatInterval (sockets s ! sid) then heartbeat sid now s
      else s)"
| "step s (Pong sid) =
     (if sid < length (sockets s) \<and> connected (sockets s ! sid) then on_pong sid s else s)"
| "step s (Disconnect sid why now) =
     (if sid < length (sockets s) then close_socket sid why now s else s)"
| "step s (SocketError sid) = s"
| "step s (Request r now) = fst (handle r now s)"

definition run :: "server \<Rightarrow> event list \<Rightarrow> server" where
  "run s evs = foldl step s evs"

subsection \<open>Inputs used in the examples\<close>

text \<open>
  Bodies that pass validation: \<open>widget\<close>; \<open>gadget\<close>, with a numeric id;
  \<open>numbered_widget\<close>, whose name is a number; \<open>boxed_widget\<close> and \<open>boxed_price\<close>, whose
  id and price are the object \<^verbatim>\<open>{"toString": 1}\<close>. One that does not: \<open>free_widget\<close>,
  with price 0. Then an order, a server with two clients of which the first has left, a
  server with two products, a client that never answers and the schedule of one that
  does.
\<close>

definition widget :: jsval where
  "widget = JObj [(''id'', JStr (str ''p1'')), (''name'', JStr (str ''Widget'')),
     (''price'', JNum (Dec 95 (-1))), (''units'', JNum (Dec 1 0)), (''taken'', JNum (Dec 1 0)),
     (''payable'', JNum (Dec 95 (-1)))]"

definition free_widget :: jsval where
  "free_widget = JObj [(''id'', JStr (str ''p1'')), (''name'', JStr (str ''Widget'')),
     (''price'', JNum (Dec 0 0)), (''units'', JNum (Dec 1 0)), (''taken'', JNum (Dec 1 0)),
     (''payable'', JNum (Dec 1 0))]"

definition gadget :: jsval where
  "gadget = JObj [(''id'', JNum (Dec 5 0)), (''name'', JStr (str ''Gadget'')),
     (''price'', JNum (Dec 125 (-1))), (''units'', JNum (Dec 3 0)), (''taken'', JNum (Dec 1 0)),
     (''payable'', JNum (Dec 125 (-1)))]"

definition numbered_widget :: jsval where
  "numbered_widget = JObj [(''id'', JStr (str ''p7'')), (''name'', JNum (Dec 7 0)),
     (''price'', JNum (Dec 1 0)), (''units'', JNum (Dec 1 0)), (''taken'', JNum (Dec 1 0)),
     (''payable'', JNum (Dec 1 0))]"

definition boxed_widget :: jsval where
  "boxed_widget = JObj [(''id'', JObj [(''toString'', JNum (Dec 1 0))]), (''name'', JStr (str ''Box'')),
     (''price'', JNum (Dec 2 0)), (''units'', JNum (Dec 1 0)), (''taken'', JNum (Dec 1 0)),
     (''payable'', JNum (Dec 2 0))]"

definition boxed_price :: jsval where
  "boxed_price = JObj [(''id'', JStr (str ''p9'')), (''name'', JStr (str ''Crate'')),
     (''price'', JObj [(''toString'', JNum (Dec 1 0))]), (''units'', JNum (Dec 1 0)),
     (''taken'', JNum (Dec 1 0)), (''payable'', JNum (Dec 2 0))]"

definition cart :: jsval where
  "cart = JObj [(''items'', JArr [JStr (str ''p1'')])]"

definition two_clients :: server where
  "two_clients = run init_server [Connection ''10.0.0.1'' 0, Connection ''10.0.0.2'' 1,
     Disconnect 0 ''client namespace disconnect'' 2]"

definition shop :: server where
  "shop = run init_server [Request (PostProduct widget) 1, Request (PostProduct gadget) 2]"

definition silent_client :: "event list" where
  "silent_client = [Connection ''10.0.0.1'' 0, Tick 0 10, Tick 0 20, Tick 0 30, Tick 0 40]"

definition answering_client :: "event list" where
  "answering_client = [Tick 0 10, Pong 0, Request ResetProducts 15, Tick 0 20, Pong 0, Tick 0 30,
     Pong 0, Pong 0, Tick 0 40, Pong 0, Tick 0 50]"

subsection \<open>Schedules\<close>

text \<open>
  Which events of a schedule concern a given socket, the ticks of its interval with their
  times, and the \<^verbatim>\<open>disconnect\<close> entries the log holds for it.
\<close>

fun is_tick :: "nat \<Rightarrow> event \<Rightarrow> bool" where
  "is_tick sid (Tick j now) = (j = sid)"
| "is_tick sid _ = False"

fun is_pong :: "nat \<Rightarrow> event \<Rightarrow> bool" where
  "is_pong sid (Pong j) = (j = sid)"
| "is_pong sid _ = False"

fun is_disconnect :: "nat \<Rightarrow> event \<Rightarrow> bool" where
  "is_disconnect sid (Disconnect j why now) = (j = sid)"
| "is_disconnect sid _ = False"

fun tick_time :: "event \<Rightarrow> int" where
  "tick_time (Tick j now) = now"
| "tick_time _ = 0"

definition tick_times :: "nat \<Rightarrow> event list \<Rightarrow> int list" where
  "tick_times sid evs = map tick_time (filter (is_tick sid) evs)"

definition disconnects_of :: "nat \<Rightarrow> server \<Rightarrow> log_entry list" where
  "disconnects_of sid s =
     filter (\<lambda>e. event e = ''disconnect'' \<and> client_id (client e) = sid) (connectionLogs s)"

text \<open>
  A schedule in which the client answers: every tick of the socket's interval but the
  first has a \<^verbatim>\<open>pong\<close> from the client since the tick before it. The flag says
  that the counter is known to be zero, which it is right after the connection (a
  schedule with a \<^verbatim>\<open>pong\<close> before every tick, the first included, is one of these).
\<close>

fun answered :: "nat \<Rightarrow> bool \<Rightarrow> event list \<Rightarrow> bool" where
  "answered sid z [] = True"
| "answered sid z (ev # evs) =
     (if is_tick sid ev then z \<and> answered sid False evs
      else if is_pong sid ev then answered sid True evs
      else answered sid z evs)"

definition never_disconnects :: "nat \<Rightarrow> event list \<Rightarrow> bool" where
  "never_disconnects sid evs = list_all (\<lambda>ev. \<not> is_disconnect sid ev) evs"

definition never_pongs :: "nat \<Rightarrow> event list \<Rightarrow> bool" where
  "never_pongs sid evs = list_all (\<lambda>ev. \<not> is_pong sid ev) evs"

text \<open>
  The states the server can be in keep each socket's \<open>clientInfo\<close> in step with its
  position, keep its interval scheduled exactly as long as it is connected, and log only
  sockets that exist.
\<close>

definition wf_server :: "server \<Rightarrow> bool" where
  "wf_server s =
     ((\<forall>j < length (sockets s). client_id (clientInfo (sockets s ! j)) = j
          \<and> heartbeatInterval (sockets s ! j) = connected (sockets s ! j))
      \<and> (\<forall>e \<in> set (connectionLogs s). client_id (client e) < length (sockets s)))"

section \<open>Facts about the model\<close>

subsection \<open>Requests and the store\<close>

lemma str_empty [simp]: "str s = [] \<longleftrightarrow> s = []"
  by (simp add: str_def)

lemma io_emit_simps:
  "products (io_emit ev args s) = products s"
  "orders (io_emit ev args s) = orders s"
  "connectionLogs (io_emit ev args s) = connectionLogs s"
  "sockets (io_emit ev args s) = map (deliver (ev, args)) (sockets s)"
  by (simp_all add: io_emit_def)

lemma deliver_simps:
  "outbox (deliver m k) = (if connected k then outbox k @ [m] else outbox k)"
  "connected (deliver m k) = connected k"
  "missedPings (deliver m k) = missedPings k"
  "heartbeatInterval (deliver m k) = heartbeatInterval k"
  "discarded (deliver m k) = discarded k"
  "clientInfo (deliver m k) = clientInfo k"
  by (simp_all add: deliver_def)

lemma post_product_rejected:
  assumes "f \<in> set requiredFields" "\<not> truthy (get_prop b f)"
  shows "post_product now b s =
     (s, \<lparr>status = 400,
           json = JObj [(''success'', JBool False),
                        (''error'', JStr (str (''Missing required fields: '' @
                           join '', '' (filter (\<lambda>f. \<not> truthy (get_prop b f)) requiredFields))))]\<rparr>)"
proof -
  from assms have "filter (\<lambda>f. \<not> truthy (get_prop b f)) requiredFields \<noteq> []"
    by (auto simp: filter_empty_conv)
  then show ?thesis by (simp add: post_product_def Let_def)
qed

lemma post_product_accepted:
  assumes "\<forall>f \<in> set requiredFields. truthy (get_prop b f)"
  shows "post_product now b s =
     (io_emit ''new_product'' [JObj (obj_set ''addedAt'' (date now) (spread b))]
        (s\<lparr>products := products s @ [obj_set ''addedAt'' (date now) (spread b)]\<rparr>),
      \<lparr>status = 201,
       json = JObj [(''success'', JBool True),
                    (''product'', JObj (obj_set ''addedAt'' (date now) (spread b)))]\<rparr>)"
proof -
  from assms have "filter (\<lambda>f. \<not> truthy (get_prop b f)) requiredFields = []"
    by (simp add: filter_empty_conv)
  then show ?thesis by (simp add: post_product_def Let_def)
qed

lemma field_obj_set: "field (obj_set k v kvs) f = (if f = k then v else field kvs f)"
  by (induction kvs) (auto simp: field_def)

lemma findIndex_Some:
  "findIndex P xs = Some (Some i) \<Longrightarrow>
     i < length xs \<and> P (xs ! i) = Some True \<and> (\<forall>j < i. P (xs ! j) = Some False)"
proof (induction xs arbitrary: i)
  case Nil
  then show ?case by simp
next
  case (Cons x xs)
  from Cons.prems obtain b where b: "P x = Some b" by (cases "P x") auto
  show ?case
  proof (cases b)
    case True
    with Cons.prems b show ?thesis by simp
  next
    case False
    with Cons.prems b obtain i' where i': "findIndex P xs = Some (Some i')" "i = Suc i'"
      by (auto simp: map_option_case split: option.splits)
    from Cons.IH[OF i'(1)] False b i'(2) show ?thesis
      by (auto simp: less_Suc_eq_0_disj)
  qed
qed

lemma get_prop_truthy_obj: "truthy (get_prop b f) \<Longrightarrow> \<exists>kvs. b = JObj kvs"
  by (cases b) auto

lemma products_step_cases:
  "products (step s ev) = products s
   \<or> (\<exists>now b. (\<forall>f \<in> set requiredFields. truthy (get_prop b f))
         \<and> products (step s ev) = products s @ [obj_set ''addedAt'' (date now) (spread b)])
   \<or> products (step s ev) = []
   \<or> (\<exists>i. products (step s ev) = splice1 i (products s))"
proof (cases ev)
  case (Request r now)
  show ?thesis
  proof (cases r)
    case (PostProduct b)
    show ?thesis
    proof (cases "\<forall>f \<in> set requiredFields. truthy (get_prop b f)")
      case True
      from post_product_accepted[OF True, of now s] Request PostProduct True show ?thesis
        by (auto simp: io_emit_simps)
    next
      case False
      then obtain f where "f \<in> set requiredFields" "\<not> truthy (get_prop b f)" by blast
      from post_product_rejected[OF this, of now s] Request PostProduct show ?thesis by simp
    qed
  next
    case ResetProducts
    with Request show ?thesis by (simp add: reset_products_def io_emit_simps)
  next
    case (GetProducts n lo hi)
    with Request show ?thesis by (simp add: get_products_def Let_def split: option.splits)
  next
    case (GetProduct pid)
    with Request show ?thesis by (simp add: get_product_def split: option.splits)
  next
    case (DeleteProduct pid)
    with Request show ?thesis
      by (auto simp: delete_product_def Let_def io_emit_simps split: option.splits)
  next
    case (Checkout b)
    with Request show ?thesis by (simp add: checkout_def Let_def io_emit_simps)
  qed
next
  case (Connection addr now)
  then show ?thesis by (simp add: on_connection_def Let_def socket_emit_def)
next
  case (Tick sid now)
  then show ?thesis
    by (simp add: heartbeat_def socket_disconnect_def close_socket_def on_disconnect_def Let_def socket_emit_def)
next
  case (Pong sid)
  then show ?thesis by (simp add: on_pong_def)
next
  case (Disconnect sid why now)
  then show ?thesis by (simp add: close_socket_def on_disconnect_def Let_def)
next
  case (SocketError sid)
  then show ?thesis by simp
qed

lemma accepted_product_fields:
  assumes "\<forall>f \<in> set requiredFields. truthy (get_prop b f)" and "g \<in> set requiredFields"
  shows "truthy (field (obj_set ''addedAt'' (date now) (spread b)) g)"
proof -
  from assms have t: "truthy (get_prop b g)" by blast
  then obtain kvs where b: "b = JObj kvs" using get_prop_truthy_obj by blast
  from assms(2) have "g \<noteq> ''addedAt''" by (auto simp: requiredFields_def)
  with t b show ?thesis by (simp add: field_obj_set)
qed

lemma set_splice1: "set (splice1 i xs) \<subseteq> set xs"
  unfolding splice1_def using set_take_subset[of i xs] set_drop_subset[of "Suc i" xs] by auto

lemma step_products_valid:
  assumes "\<forall>p \<in> set (products s). \<forall>f \<in> set requiredFields. truthy (field p f)"
  shows "\<forall>p \<in> set (products (step s ev)). \<forall>f \<in> set requiredFields. truthy (field p f)"
proof -
  consider (same) "products (step s ev) = products s"
    | (added) now b where "\<forall>f \<in> set requiredFields. truthy (get_prop b f)"
        "products (step s ev) = products s @ [obj_set ''addedAt'' (date now) (spread b)]"
    | (reset) "products (step s ev) = []"
    | (removed) i where "products (step s ev) = splice1 i (products s)"
    using products_step_cases[of s ev] by blast
  then show ?thesis
  proof cases
    case same
    with assms show ?thesis by simp
  next
    case added
    with assms accepted_product_fields[OF added(1)] show ?thesis by simp
  next
    case reset
    then show ?thesis by simp
  next
    case removed
    with assms set_splice1[of i "products s"] show ?thesis by (simp add: subset_iff)
  qed
qed

lemma run_products_valid:
  assumes "\<forall>p \<in> set (products s). \<forall>f \<in> set requiredFields. truthy (field p f)"
  shows "\<forall>p \<in> set (products (run s evs)). \<forall>f \<in> set requiredFields. truthy (field p f)"
  using assms unfolding run_def
proof (induction evs arbitrary: s)
  case Nil
  then show ?case by simp
next
  case (Cons ev evs)
  from Cons.IH[OF step_products_valid[OF Cons.prems]] show ?case by simp
qed

lemma io_emit_outboxes:
  "map outbox (map (deliver m) ks) = map (after_publish m) ks"
  "map connected (map (deliver m) ks) = map connected ks"
  by (simp_all add: deliver_def)

lemma post_product_status:
  "status (snd (post_product now b s)) = 201 \<longleftrightarrow> (\<forall>f \<in> set requiredFields. truthy (get_prop b f))"
proof (cases "\<forall>f \<in> set requiredFields. truthy (get_prop b f)")
  case True
  with post_product_accepted[OF True, of now s] show ?thesis by simp
next
  case False
  then obtain f where "f \<in> set requiredFields" "\<not> truthy (get_prop b f)" by blast
  from post_product_rejected[OF this, of now s] False show ?thesis by simp
qed

lemma two_clients_sockets:
  "map connected (sockets two_clients) = [False, True]"
  "map (map fst \<circ> outbox) (sockets two_clients) = [[''init_products''], [''init_products'']]"
  by code_simp+

subsection \<open>The coercions on some inputs\<close>

text \<open>
  Literals are rounded to doubles, and a number prints as the shortest decimal that
  reads back as the same double; white space around a numeric string is dropped, also
  outside ASCII; an id that hides \<^verbatim>\<open>toString\<close> cannot be compared with a string.
\<close>

lemma coercion_examples:
  "string_to_number (str ''0.1'') =
     Dec 1000000000000000055511151231257827021181583404541015625 (- 55)"
  "number_to_string (string_to_number (str ''0.1'')) = str ''0.1''"
  "string_to_number (str ''9007199254740993'') = Dec 9007199254740992 0"
  "number_to_string (string_to_number (str ''100000000000000000000000'')) = str ''1e+23''"
  "string_to_number (str ''1e400'') = PosInf"
  "parseFloat (JStr (str ''  12.5kg'')) = Some (Dec 125 (- 1))"
  "parseFloat (JStr (str ''9007199254740993'')) = Some (Dec 9007199254740992 0)"
  "loose_eq_str (JNum (Dec 5 0)) [0xA0, 0x35, 0xFEFF] = Some True"
  "loose_eq_str (JNum (Dec 9007199254740992 0)) (str ''9007199254740993'') = Some True"
  "loose_eq_str (JArr [JNum (Dec 5 0)]) (str ''5'') = Some True"
  "loose_eq_str (JArr [JObj [(''toString'', JNum (Dec 1 0))]]) (str ''5'') = None"
  "js_ge (JObj [(''toString'', JNum (Dec 1 0))]) (Dec 1 0) = None"
  "toLowerCase (str ''Widget 7'') = str ''widget 7''"
  by code_simp+

subsection \<open>Reachable states\<close>

text \<open>
  No request touches the log, and a request changes the sockets only by delivering one
  message to those that are connected. Every step keeps the state well formed and keeps
  the sockets it found.
\<close>

lemma handle_frame:
  "connectionLogs (fst (handle r now s)) = connectionLogs s
   \<and> (sockets (fst (handle r now s)) = sockets s
       \<or> (\<exists>m. sockets (fst (handle r now s)) = map (deliver m) (sockets s)))"
proof (cases r)
  case (PostProduct b)
  show ?thesis
  proof (cases "\<forall>f \<in> set requiredFields. truthy (get_prop b f)")
    case True
    from post_product_accepted[OF True, of now s] PostProduct show ?thesis
      by (auto simp: io_emit_simps)
  next
    case False
    then obtain f where "f \<in> set requiredFields" "\<not> truthy (get_prop b f)" by blast
    from post_product_rejected[OF this, of now s] PostProduct show ?thesis by simp
  qed
next
  case ResetProducts
  then show ?thesis by (auto simp: reset_products_def io_emit_simps)
next
  case (GetProducts n lo hi)
  then show ?thesis by (simp add: get_products_def Let_def split: option.splits)
next
  case (GetProduct pid)
  then show ?thesis by (simp add: get_product_def split: option.splits)
next
  case (DeleteProduct pid)
  then show ?thesis
    by (auto simp: delete_product_def Let_def io_emit_simps split: option.splits)
next
  case (Checkout b)
  then show ?thesis by (auto simp: checkout_def Let_def io_emit_simps)
qed

lemma request_socket:
  assumes "sid < length (sockets s)"
  shows "sid < length (sockets (step s (Request r now)))
   \<and> connectionLogs (step s (Request r now)) = connectionLogs s
   \<and> (sockets (step s (Request r now)) ! sid = sockets s ! sid
       \<or> (\<exists>m. sockets (step s (Request r now)) ! sid = deliver m (sockets s ! sid)))"
proof -
  from handle_frame[of r now s]
  consider "sockets (fst (handle r now s)) = sockets s"
    | m where "sockets (fst (handle r now s)) = map (deliver m) (sockets s)"
    by blast
  then have "sid < length (sockets (step s (Request r now)))
     \<and> (sockets (step s (Request r now)) ! sid = sockets s ! sid
       \<or> (\<exists>m. sockets (step s (Request r now)) ! sid = deliver m (sockets s ! sid)))"
  proof cases
    case 1
    with assms show ?thesis by simp
  next
    case 2
    with assms have "sockets (step s (Request r now)) ! sid = deliver m (sockets s ! sid)"
      and "sid < length (sockets (step s (Request r now)))" by simp_all
    then show ?thesis by blast
  qed
  with handle_frame[of r now s] show ?thesis by simp
qed

lemmas heartbeat_defs =
  heartbeat_def socket_disconnect_def close_socket_def on_disconnect_def socket_emit_def Let_def

lemma step_length: "length (sockets s) \<le> length (sockets (step s ev))"
proof (cases ev)
  case (Request r now)
  with handle_frame[of r now s] show ?thesis by auto
qed (auto simp: heartbeat_defs on_connection_def on_pong_def)

lemma wf_step:
  assumes "wf_server s"
  shows "wf_server (step s ev)"
proof (cases ev)
  case (Connection addr now)
  with assms show ?thesis
    by (auto simp: wf_server_def on_connection_def socket_emit_def Let_def nth_append less_Suc_eq)
next
  case (Tick sid now)
  with assms show ?thesis
    by (auto simp: wf_server_def heartbeat_defs nth_list_update)
next
  case (Pong sid)
  with assms show ?thesis by (auto simp: wf_server_def on_pong_def nth_list_update)
next
  case (Disconnect sid why now)
  with assms show ?thesis by (auto simp: wf_server_def heartbeat_defs nth_list_update)
next
  case (SocketError sid)
  with assms show ?thesis by simp
next
  case (Request r now)
  from handle_frame[of r now s] assms Request show ?thesis
    by (auto simp: wf_server_def deliver_simps)
qed

lemma wf_run: "wf_server s \<Longrightarrow> wf_server (run s evs)"
  unfolding run_def by (induction evs arbitrary: s) (simp_all add: wf_step)

lemma wf_init: "wf_server init_server"
  by (simp add: wf_server_def init_server_def)

lemma run_length: "length (sockets s) \<le> length (sockets (run s evs))"
  unfolding run_def
proof (induction evs arbitrary: s)
  case (Cons ev evs)
  from step_length[of s ev] Cons[of "step s ev"] show ?case by simp
qed simp

subsection \<open>One socket through a schedule\<close>

text \<open>
  What each event does to a given socket: a tick of its interval, a \<^verbatim>\<open>pong\<close>, the
  transport closing it, and any event that concerns another socket or the store. A
  socket that is gone is never touched again, and nothing more is logged for it.
\<close>

lemma disconnects_of_append:
  "connectionLogs s' = connectionLogs s @ [e] \<Longrightarrow>
   disconnects_of sid s' =
     disconnects_of sid s @ (if event e = ''disconnect'' \<and> client_id (client e) = sid then [e] else [])"
  by (simp add: disconnects_of_def)

lemma tick_quiet:
  assumes "sid < length (sockets s)" and "connected (sockets s ! sid)"
    and "heartbeatInterval (sockets s ! sid)" and "missedPings (sockets s ! sid) \<le> 2"
  shows "sockets (step s (Tick sid now)) ! sid =
           (sockets s ! sid)\<lparr>missedPings := missedPings (sockets s ! sid) + 1,
                              outbox := outbox (sockets s ! sid) @ [(''ping'', [])]\<rparr>"
    and "connectionLogs (step s (Tick sid now)) = connectionLogs s"
  using assms by (simp_all add: heartbeat_defs)

lemma tick_evicts:
  assumes "sid < length (sockets s)" and "connected (sockets s ! sid)"
    and "heartbeatInterval (sockets s ! sid)" and "missedPings (sockets s ! sid) > 2"
  shows "sockets (step s (Tick sid now)) ! sid =
           (sockets s ! sid)\<lparr>missedPings := missedPings (sockets s ! sid) + 1,
                              heartbeatInterval := False, connected := False,
                              discarded := discarded (sockets s ! sid) @ [(''ping'', [])]\<rparr>"
    and "connectionLogs (step s (Tick sid now)) = connectionLogs s @
           [\<lparr>event = ''disconnect'', client = clientInfo (sockets s ! sid),
             disconnectedAt = Some now, reason = Some server_disconnect_reason\<rparr>]"
  using assms by (simp_all add: heartbeat_defs)

lemma pong_resets:
  assumes "sid < length (sockets s)" and "connected (sockets s ! sid)"
  shows "sockets (step s (Pong sid)) ! sid = (sockets s ! sid)\<lparr>missedPings := 0\<rparr>"
    and "connectionLogs (step s (Pong sid)) = connectionLogs s"
  using assms by (simp_all add: on_pong_def)

lemma disconnect_closes:
  assumes "sid < length (sockets s)" and "connected (sockets s ! sid)"
  shows "sockets (step s (Disconnect sid why now)) ! sid =
           (sockets s ! sid)\<lparr>connected := False, heartbeatInterval := False\<rparr>"
    and "connectionLogs (step s (Disconnect sid why now)) = connectionLogs s @
           [\<lparr>event = ''disconnect'', client = clientInfo (sockets s ! sid),
             disconnectedAt = Some now, reason = Some why\<rparr>]"
  using assms by (simp_all add: heartbeat_defs)

lemma step_other:
  assumes "sid < length (sockets s)" and "wf_server s"
    and "\<not> is_tick sid ev" and "\<not> is_pong sid ev" and "\<not> is_disconnect sid ev"
  shows "missedPings (sockets (step s ev) ! sid) = missedPings (sockets s ! sid)
       \<and> connected (sockets (step s ev) ! sid) = connected (sockets s ! sid)
       \<and> heartbeatInterval (sockets (step s ev) ! sid) = heartbeatInterval (sockets s ! sid)
       \<and> discarded (sockets (step s ev) ! sid) = discarded (sockets s ! sid)
       \<and> clientInfo (sockets (step s ev) ! sid) = clientInfo (sockets s ! sid)
       \<and> disconnects_of sid (step s ev) = disconnects_of sid s"
proof (cases ev)
  case (Connection addr now)
  with assms show ?thesis
    by (simp add: on_connection_def socket_emit_def Let_def nth_append disconnects_of_def)
next
  case (Tick j now)
  with assms have "j \<noteq> sid" by simp
  with assms Tick show ?thesis
    by (auto simp: heartbeat_defs wf_server_def disconnects_of_def)
next
  case (Pong j)
  with assms have "j \<noteq> sid" by simp
  with assms Pong show ?thesis by (simp add: on_pong_def disconnects_of_def)
next
  case (Disconnect j why now)
  with assms have "j \<noteq> sid" by simp
  with assms Disconnect show ?thesis
    by (auto simp: heartbeat_defs wf_server_def disconnects_of_def)
next
  case (SocketError j)
  then show ?thesis by simp
next
  case (Request r now)
  from request_socket[OF assms(1), of r now] Request show ?thesis
    by (auto simp: deliver_simps disconnects_of_def)
qed

lemma step_gone:
  assumes "sid < length (sockets s)" and "wf_server s" and "\<not> connected (sockets s ! sid)"
  shows "sockets (step s ev) ! sid = sockets s ! sid
       \<and> disconnects_of sid (step s ev) = disconnects_of sid s"
proof -
  from assms have off: "\<not> heartbeatInterval (sockets s ! sid)" by (simp add: wf_server_def)
  show ?thesis
  proof (cases ev)
    case (Connection addr now)
    with assms show ?thesis
      by (simp add: on_connection_def socket_emit_def Let_def nth_append disconnects_of_def)
  next
    case (Tick j now)
    with assms off show ?thesis
      by (cases "j = sid") (auto simp: heartbeat_defs wf_server_def disconnects_of_def)
  next
    case (Pong j)
    with assms show ?thesis by (cases "j = sid") (simp_all add: on_pong_def disconnects_of_def)
  next
    case (Disconnect j why now)
    with assms show ?thesis
      by (cases "j = sid") (auto simp: heartbeat_defs wf_server_def disconnects_of_def)
  next
    case (SocketError j)
    then show ?thesis by simp
  next
    case (Request r now)
    from request_socket[OF assms(1), of r now] Request assms(3) show ?thesis
      by (auto simp: deliver_def disconnects_of_def)
  qed
qed

lemma run_gone:
  assumes "sid < length (sockets s)" and "wf_server s" and "\<not> connected (sockets s ! sid)"
  shows "sockets (run s evs) ! sid = sockets s ! sid
       \<and> disconnects_of sid (run s evs) = disconnects_of sid s"
  using assms unfolding run_def
proof (induction evs arbitrary: s)
  case Nil
  then show ?case by simp
next
  case (Cons ev evs)
  from step_gone[OF Cons.prems, of ev] have same: "sockets (step s ev) ! sid = sockets s ! sid"
    and logs: "disconnects_of sid (step s ev) = disconnects_of sid s" by simp_all
  from Cons.prems step_length[of s ev] have len: "sid < length (sockets (step s ev))" by simp
  from Cons.IH[OF len wf_step[OF Cons.prems(2)]] same logs Cons.prems(3)
  show ?case by simp
qed

lemma silent_run:
  assumes "wf_server s" and "sid < length (sockets s)" and "connected (sockets s ! sid)"
    and "missedPings (sockets s ! sid) \<le> 3"
    and "never_pongs sid evs" and "never_disconnects sid evs"
  shows "(missedPings (sockets s ! sid) + length (tick_times sid evs) \<le> 3 \<longrightarrow>
            connected (sockets (run s evs) ! sid)
            \<and> missedPings (sockets (run s evs) ! sid) =
                missedPings (sockets s ! sid) + length (tick_times sid evs)
            \<and> discarded (sockets (run s evs) ! sid) = discarded (sockets s ! sid)
            \<and> disconnects_of sid (run s evs) = disconnects_of sid s)
       \<and> (missedPings (sockets s ! sid) + length (tick_times sid evs) > 3 \<longrightarrow>
            \<not> connected (sockets (run s evs) ! sid)
            \<and> missedPings (sockets (run s evs) ! sid) = 4
            \<and> discarded (sockets (run s evs) ! sid) = discarded (sockets s ! sid) @ [(''ping'', [])]
            \<and> disconnects_of sid (run s evs) = disconnects_of sid s @
                [\<lparr>event = ''disconnect'', client = clientInfo (sockets s ! sid),
                  disconnectedAt = Some (tick_times sid evs ! (3 - missedPings (sockets s ! sid))),
                  reason = Some server_disconnect_reason\<rparr>])"
  using assms
proof (induction evs arbitrary: s)
  case Nil
  then show ?case by (simp add: run_def tick_times_def)
next
  case (Cons ev evs)
  let ?k = "sockets s ! sid"
  let ?s1 = "step s ev"
  have run: "run s (ev # evs) = run ?s1 evs" by (simp add: run_def)
  from Cons.prems have rest: "never_pongs sid evs" "never_disconnects sid evs"
    and this_ev: "\<not> is_pong sid ev" "\<not> is_disconnect sid ev"
    by (simp_all add: never_pongs_def never_disconnects_def)
  from Cons.prems have on: "heartbeatInterval ?k" by (simp add: wf_server_def)
  have wf1: "wf_server ?s1" using Cons.prems(1) by (rule wf_step)
  have len1: "sid < length (sockets ?s1)" using Cons.prems(2) step_length[of s ev] by simp
  show ?case
  proof (cases "is_tick sid ev")
    case False
    from step_other[OF Cons.prems(2) Cons.prems(1) False this_ev]
    have same: "missedPings (sockets ?s1 ! sid) = missedPings ?k"
      "connected (sockets ?s1 ! sid) = connected ?k"
      "discarded (sockets ?s1 ! sid) = discarded ?k"
      "clientInfo (sockets ?s1 ! sid) = clientInfo ?k"
      "disconnects_of sid ?s1 = disconnects_of sid s" by simp_all
    from False have tt: "tick_times sid (ev # evs) = tick_times sid evs"
      by (simp add: tick_times_def)
    from same Cons.prems(3,4)
    have c1: "connected (sockets ?s1 ! sid)" and m1: "missedPings (sockets ?s1 ! sid) \<le> 3"
      by simp_all
    from Cons.IH[OF wf1 len1 c1 m1 rest] show ?thesis
      unfolding run tt same by blast
  next
    case True
    then obtain now where ev: "ev = Tick sid now" by (cases ev) auto
    have tt: "tick_times sid (ev # evs) = now # tick_times sid evs"
      using ev by (simp add: tick_times_def)
    show ?thesis
    proof (cases "missedPings ?k \<le> 2")
      case True
      from tick_quiet[OF Cons.prems(2,3) on True, of now]
      have k1: "sockets ?s1 ! sid = ?k\<lparr>missedPings := missedPings ?k + 1,
                  outbox := outbox ?k @ [(''ping'', [])]\<rparr>"
        and "connectionLogs ?s1 = connectionLogs s"
        unfolding ev by simp_all
      then have logs: "disconnects_of sid ?s1 = disconnects_of sid s"
        by (simp add: disconnects_of_def)
      from k1 Cons.prems(3) True
      have c1: "connected (sockets ?s1 ! sid)" and m1: "missedPings (sockets ?s1 ! sid) \<le> 3"
        by simp_all
      from True have "3 - missedPings ?k = Suc (3 - (missedPings ?k + 1))" by arith
      then have idx: "(now # tick_times sid evs) ! (3 - missedPings ?k) =
              tick_times sid evs ! (3 - (missedPings ?k + 1))"
        by (simp only: nth_Cons_Suc)
      from Cons.IH[OF wf1 len1 c1 m1 rest] show ?thesis
        unfolding run tt idx by (simp add: k1 logs)
    next
      case False
      with Cons.prems(4) have m3: "missedPings ?k = 3" by simp
      then have gt: "missedPings ?k > 2" by simp
      from Cons.prems(1,2) have cid: "client_id (clientInfo ?k) = sid" by (simp add: wf_server_def)
      from tick_evicts[OF Cons.prems(2,3) on gt, of now]
      have k1: "sockets ?s1 ! sid = ?k\<lparr>missedPings := missedPings ?k + 1,
                  heartbeatInterval := False, connected := False,
                  discarded := discarded ?k @ [(''ping'', [])]\<rparr>"
        and logs: "connectionLogs ?s1 = connectionLogs s @
           [\<lparr>event = ''disconnect'', client = clientInfo ?k,
             disconnectedAt = Some now, reason = Some server_disconnect_reason\<rparr>]"
        unfolding ev by simp_all
      from k1 have gone: "\<not> connected (sockets ?s1 ! sid)" by simp
      from run_gone[OF len1 wf1 gone, of evs] disconnects_of_append[OF logs, of sid] cid
      show ?thesis unfolding run tt by (simp add: k1 m3)
    qed
  qed
qed

lemma answered_run:
  assumes "wf_server s" and "sid < length (sockets s)" and "connected (sockets s ! sid)"
    and "missedPings (sockets s ! sid) \<le> 1" and "z \<longrightarrow> missedPings (sockets s ! sid) = 0"
    and "answered sid z evs" and "never_disconnects sid evs"
  shows "connected (sockets (run s evs) ! sid)
       \<and> missedPings (sockets (run s evs) ! sid) \<le> 1
       \<and> discarded (sockets (run s evs) ! sid) = discarded (sockets s ! sid)
       \<and> disconnects_of sid (run s evs) = disconnects_of sid s"
  using assms
proof (induction evs arbitrary: s z)
  case Nil
  then show ?case by (simp add: run_def)
next
  case (Cons ev evs)
  let ?k = "sockets s ! sid"
  let ?s1 = "step s ev"
  have run: "run s (ev # evs) = run ?s1 evs" by (simp add: run_def)
  from Cons.prems have rest: "never_disconnects sid evs" and this_ev: "\<not> is_disconnect sid ev"
    by (simp_all add: never_disconnects_def)
  from Cons.prems have on: "heartbeatInterval ?k" by (simp add: wf_server_def)
  have wf1: "wf_server ?s1" using Cons.prems(1) by (rule wf_step)
  have len1: "sid < length (sockets ?s1)" using Cons.prems(2) step_length[of s ev] by simp
  consider (tick) "is_tick sid ev" | (pong) "\<not> is_tick sid ev" "is_pong sid ev"
    | (other) "\<not> is_tick sid ev" "\<not> is_pong sid ev" by blast
  then show ?case
  proof cases
    case tick
    then obtain now where ev: "ev = Tick sid now" by (cases ev) auto
    from Cons.prems(6) tick have z: "z" and a: "answered sid False evs" by simp_all
    with Cons.prems(5) have m0: "missedPings ?k = 0" by simp
    then have le: "missedPings ?k \<le> 2" by simp
    from tick_quiet[OF Cons.prems(2,3) on le, of now]
    have k1: "sockets ?s1 ! sid = ?k\<lparr>missedPings := missedPings ?k + 1,
                outbox := outbox ?k @ [(''ping'', [])]\<rparr>"
      and "connectionLogs ?s1 = connectionLogs s"
      unfolding ev by simp_all
    then have logs: "disconnects_of sid ?s1 = disconnects_of sid s"
      by (simp add: disconnects_of_def)
    from k1 Cons.prems(3) m0
    have c1: "connected (sockets ?s1 ! sid)" and m1: "missedPings (sockets ?s1 ! sid) \<le> 1"
      by simp_all
    from Cons.IH[OF wf1 len1 c1 m1 _ a rest] show ?thesis
      unfolding run by (simp add: k1 logs)
  next
    case pong
    then obtain ev: "ev = Pong sid" by (cases ev) auto
    from Cons.prems(6) pong have a: "answered sid True evs" by simp
    from pong_resets[OF Cons.prems(2,3)]
    have k1: "sockets ?s1 ! sid = ?k\<lparr>missedPings := 0\<rparr>"
      and "connectionLogs ?s1 = connectionLogs s"
      unfolding ev by simp_all
    then have logs: "disconnects_of sid ?s1 = disconnects_of sid s"
      by (simp add: disconnects_of_def)
    from k1 Cons.prems(3)
    have c1: "connected (sockets ?s1 ! sid)" and m1: "missedPings (sockets ?s1 ! sid) \<le> 1"
      and m0: "True \<longrightarrow> missedPings (sockets ?s1 ! sid) = 0"
      by simp_all
    from Cons.IH[OF wf1 len1 c1 m1 m0 a rest] show ?thesis
      unfolding run by (simp add: k1 logs)
  next
    case other
    from step_other[OF Cons.prems(2) Cons.prems(1) other(1) other(2) this_ev]
    have same: "missedPings (sockets ?s1 ! sid) = missedPings ?k"
      "connected (sockets ?s1 ! sid) = connected ?k"
      "discarded (sockets ?s1 ! sid) = discarded ?k"
      "disconnects_of sid ?s1 = disconnects_of sid s" by simp_all
    from Cons.prems(6) other have a: "answered sid z evs" by simp
    from Cons.IH[OF wf1 len1 _ _ _ a rest, of ] same Cons.prems(3,4,5)
    show ?thesis unfolding run by simp
  qed
qed

lemma fresh_connection:
  assumes "wf_server s"
  shows "wf_server (step s (Connection addr t0))"
    and "length (sockets s) < length (sockets (step s (Connection addr t0)))"
    and "sockets (step s (Connection addr t0)) ! length (sockets s) =
           \<lparr>clientInfo = \<lparr>client_id = length (sockets s), ip = addr, connectedAt = t0\<rparr>,
            missedPings = 0, heartbeatInterval = True, connected = True,
            outbox = [(''init_products'', [JArr (map JObj (products s))])], discarded = []\<rparr>"
    and "disconnects_of (length (sockets s)) (step s (Connection addr t0)) = []"
proof -
  show "wf_server (step s (Connection addr t0))" using assms by (rule wf_step)
  show "length (sockets s) < length (sockets (step s (Connection addr t0)))"
    by (simp add: on_connection_def socket_emit_def Let_def)
  show "sockets (step s (Connection addr t0)) ! length (sockets s) =
           \<lparr>clientInfo = \<lparr>client_id = length (sockets s), ip = addr, connectedAt = t0\<rparr>,
            missedPings = 0, heartbeatInterval = True, connected = True,
            outbox = [(''init_products'', [JArr (map JObj (products s))])], discarded = []\<rparr>"
    by (simp add: on_connection_def socket_emit_def Let_def)
  from assms have "\<forall>e \<in> set (connectionLogs s). client_id (client e) \<noteq> length (sockets s)"
    by (auto simp: wf_server_def)
  then show "disconnects_of (length (sockets s)) (step s (Connection addr t0)) = []"
    by (simp add: on_connection_def socket_emit_def Let_def disconnects_of_def filter_empty_conv)
qed

section \<open>The claims\<close>

subsection \<open>Registration\<close>

text \<open>
  C7. When a client connects, the handler appends exactly one \<^verbatim>\<open>connect\<close> entry to
  \<open>connectionLogs\<close>, and the new socket is the only one to receive the \<^verbatim>\<open>init_products\<close>
  event, which carries the current \<open>products\<close>: the sockets that were there are unchanged, so
  nothing is broadcast, and the store is unchanged.
\<close>

theorem connection_registers:
  "connectionLogs (step s (Connection addr now)) =
     connectionLogs s @
       [\<lparr>event = ''connect'',
         client = \<lparr>client_id = length (sockets s), ip = addr, connectedAt = now\<rparr>,
         disconnectedAt = None, reason = None\<rparr>]
   \<and> sockets (step s (Connection addr now)) =
     sockets s @
       [\<lparr>clientInfo = \<lparr>client_id = length (sockets s), ip = addr, connectedAt = now\<rparr>,
         missedPings = 0, heartbeatInterval = True, connected = True,
         outbox = [(''init_products'', [JArr (map JObj (products s))])], discarded = []\<rparr>]
   \<and> products (step s (Connection addr now)) = products s
   \<and> orders (step s (Connection addr now)) = orders s"
  by (simp add: on_connection_def socket_emit_def Let_def)

subsection \<open>Product creation\<close>

text \<open>
  C9. A request to create a product in which a required field (\<^verbatim>\<open>id\<close>, \<^verbatim>\<open>name\<close>,
  \<^verbatim>\<open>price\<close>, \<^verbatim>\<open>units\<close>, \<^verbatim>\<open>taken\<close>, \<^verbatim>\<open>payable\<close>) is absent or falsy is answered
  with status 400 and leaves the whole server state as it was: the store is unchanged and
  no socket receives anything. Hence, whatever events the server has seen since it
  started, every stored product has a truthy value in every required field; in
  particular no product with price 0 is ever stored.
\<close>

theorem falsy_field_rejected:
  "(f \<in> set requiredFields \<and> \<not> truthy (get_prop b f) \<longrightarrow>
      fst (post_product now b s) = s \<and> status (snd (post_product now b s)) = 400)
   \<and> (\<forall>p \<in> set (products (run init_server evs)). \<forall>g \<in> set requiredFields. truthy (field p g))"
proof (intro conjI impI)
  assume a: "f \<in> set requiredFields \<and> \<not> truthy (get_prop b f)"
  then have "f \<in> set requiredFields" "\<not> truthy (get_prop b f)" by simp_all
  from post_product_rejected[OF this, of now s]
  show "fst (post_product now b s) = s" "status (snd (post_product now b s)) = 400" by simp_all
next
  show "\<forall>p \<in> set (products (run init_server evs)). \<forall>g \<in> set requiredFields. truthy (field p g)"
    by (rule run_products_valid) (simp add: init_server_def)
qed

theorem falsy_field_rejected_witness:
  "fst (post_product 7 free_widget init_server) = init_server
   \<and> status (snd (post_product 7 free_widget init_server)) = 400
   \<and> truthy (field (hd (products (run init_server [Request (PostProduct widget) 7]))) ''price'')"
proof -
  have h: "''price'' \<in> set requiredFields \<and> \<not> truthy (get_prop free_widget ''price'')"
    by (simp add: requiredFields_def free_widget_def field_def)
  have r: "products (run init_server [Request (PostProduct widget) 7]) =
             [obj_set ''addedAt'' (date 7) (spread widget)]"
    by code_simp
  from falsy_field_rejected[of "''price''" free_widget 7 init_server "[Request (PostProduct widget) 7]"] h r
  show ?thesis by (simp add: requiredFields_def)
qed

text \<open>
  C2, as stated, fails: the handler always pushes, so creating a product with the same id
  twice leaves two entries with that id.
\<close>

theorem upsert_duplicates_counterexample:
  "length (filter (\<lambda>p. field p ''id'' = JStr (str ''p1''))
     (products (run init_server [Request (PostProduct widget) 1, Request (PostProduct widget) 2]))) = 2"
  by code_simp

text \<open>
  C2, amended. A successful \<^verbatim>\<open>POST /product\<close> appends the new entity, which is the body
  with \<^verbatim>\<open>addedAt\<close> set and carries the body's id, at the end of \<open>products\<close> and
  replaces nothing: the number of entries with that id grows by exactly one. The entity
  is there exactly once only when no entry had its id before.
\<close>

theorem post_product_appends:
  assumes "\<forall>f \<in> set requiredFields. truthy (get_prop b f)"
  shows "products (fst (post_product now b s)) = products s @ [obj_set ''addedAt'' (date now) (spread b)]
     \<and> field (obj_set ''addedAt'' (date now) (spread b)) ''id'' = get_prop b ''id''
     \<and> length (filter (\<lambda>p. field p ''id'' = get_prop b ''id'') (products (fst (post_product now b s))))
         = Suc (length (filter (\<lambda>p. field p ''id'' = get_prop b ''id'') (products s)))"
proof -
  have "''id'' \<in> set requiredFields" by (simp add: requiredFields_def)
  with assms have "truthy (get_prop b ''id'')" by blast
  then obtain kvs where "b = JObj kvs" using get_prop_truthy_obj by blast
  then have i: "field (obj_set ''addedAt'' (date now) (spread b)) ''id'' = get_prop b ''id''"
    by (simp add: field_obj_set)
  from post_product_accepted[OF assms, of now s] i show ?thesis
    by (simp add: io_emit_simps)
qed

theorem post_product_appends_witness:
  "products (fst (post_product 2 widget (fst (post_product 1 widget init_server)))) =
     [obj_set ''addedAt'' (date 1) (spread widget), obj_set ''addedAt'' (date 2) (spread widget)]"
proof -
  have h: "\<forall>f \<in> set requiredFields. truthy (get_prop widget f)"
    by (simp add: requiredFields_def widget_def field_def)
  from post_product_appends[OF h, of 1 init_server]
       post_product_appends[OF h, of 2 "fst (post_product 1 widget init_server)"]
  show ?thesis by (simp add: init_server_def)
qed

subsection \<open>Product removal\<close>

text \<open>
  C4. The claim does not hold of the code. \<^verbatim>\<open>DELETE /product/:id\<close> compares each
  stored id with the parameter by \<^verbatim>\<open>==\<close>, and validation accepts an id that \<^verbatim>\<open>==\<close>
  cannot coerce, such as the object \<^verbatim>\<open>{"toString": 1}\<close>. Once such a product is
  stored, the removal of an id that no product has is answered with status 500 and not
  with 404, and the removal of a product stored behind it is answered with status 500
  too and removes nothing. On a store without such an id the handler does what the
  claim says: an id that no product has is answered with 404 and leaves the whole state
  as it was, and an id that a product has removes that product and no other and answers
  with it.
\<close>

theorem delete_product_uncoercible_id:
  "status (snd (post_product 1 boxed_widget init_server)) = 201
   \<and> delete_product (str ''p1'') (run init_server [Request (PostProduct boxed_widget) 1]) =
       (run init_server [Request (PostProduct boxed_widget) 1], internal_server_error)
   \<and> delete_product (str ''p1'')
         (run init_server [Request (PostProduct boxed_widget) 1, Request (PostProduct widget) 2]) =
       (run init_server [Request (PostProduct boxed_widget) 1, Request (PostProduct widget) 2],
        internal_server_error)
   \<and> status internal_server_error = 500
   \<and> delete_product (str ''p2'') shop = (shop, not_found)
   \<and> status not_found = 404
   \<and> products (fst (delete_product (str ''5'') shop)) = [obj_set ''addedAt'' (date 1) (spread widget)]
   \<and> snd (delete_product (str ''5'') shop) =
       \<lparr>status = 200,
        json = JObj [(''success'', JBool True),
                     (''data'', JObj (obj_set ''addedAt'' (date 2) (spread gadget)))]\<rparr>"
  by code_simp

subsection \<open>Mutations and their broadcasts\<close>

text \<open>
  C3. Every successful mutation updates the store and publishes exactly one event, which
  every socket connected at the call receives and no other socket does. Creating a
  product (status 201) appends the entity to \<open>products\<close> and publishes \<^verbatim>\<open>new_product\<close> with
  that entity; deleting one (status 200) removes it from \<open>products\<close> and publishes
  \<^verbatim>\<open>product_deleted\<close> with its id; clearing empties \<open>products\<close> and publishes
  \<^verbatim>\<open>products_reset\<close>, which has no entity to carry and no payload; a checkout (status 201)
  appends the order to \<open>orders\<close> and publishes \<^verbatim>\<open>new_order\<close> with that order. In each
  handler the store is written before \<^verbatim>\<open>io.emit\<close> is called.
\<close>

theorem mutation_publishes_once:
  "(status (snd (post_product now b s)) = 201 \<longrightarrow>
      (\<exists>product. products (fst (post_product now b s)) = products s @ [product]
         \<and> map outbox (sockets (fst (post_product now b s))) =
             map (after_publish (''new_product'', [JObj product])) (sockets s)
         \<and> map connected (sockets (fst (post_product now b s))) = map connected (sockets s)))
   \<and> (status (snd (delete_product pid s)) = 200 \<longrightarrow>
      (\<exists>i < length (products s).
         products (fst (delete_product pid s)) = take i (products s) @ drop (Suc i) (products s)
         \<and> map outbox (sockets (fst (delete_product pid s))) =
             map (after_publish (''product_deleted'', [field (products s ! i) ''id''])) (sockets s)
         \<and> map connected (sockets (fst (delete_product pid s))) = map connected (sockets s)))
   \<and> (status (snd (reset_products s)) = 200
       \<and> products (fst (reset_products s)) = []
       \<and> map outbox (sockets (fst (reset_products s))) =
             map (after_publish (''products_reset'', [])) (sockets s)
       \<and> map connected (sockets (fst (reset_products s))) = map connected (sockets s))
   \<and> (status (snd (checkout now c s)) = 201 \<longrightarrow>
      (\<exists>order. orders (fst (checkout now c s)) = orders s @ [order]
         \<and> map outbox (sockets (fst (checkout now c s))) =
             map (after_publish (''new_order'', [JObj order])) (sockets s)
         \<and> map connected (sockets (fst (checkout now c s))) = map connected (sockets s)))"
proof (intro conjI impI)
  assume "status (snd (post_product now b s)) = 201"
  then have ok: "\<forall>f \<in> set requiredFields. truthy (get_prop b f)" by (simp add: post_product_status)
  show "\<exists>product. products (fst (post_product now b s)) = products s @ [product]
         \<and> map outbox (sockets (fst (post_product now b s))) =
             map (after_publish (''new_product'', [JObj product])) (sockets s)
         \<and> map connected (sockets (fst (post_product now b s))) = map connected (sockets s)"
    using post_product_accepted[OF ok, of now s]
    by (intro exI[of _ "obj_set ''addedAt'' (date now) (spread b)"])
       (simp add: io_emit_outboxes io_emit_simps del: map_map)
next
  assume d: "status (snd (delete_product pid s)) = 200"
  then obtain i where i: "findIndex (\<lambda>p. loose_eq_str (field p ''id'') pid) (products s) = Some (Some i)"
    by (auto simp: delete_product_def not_found_def internal_server_error_def
             split: option.splits)
  from findIndex_Some[OF i] have "i < length (products s)" by simp
  then show "\<exists>i < length (products s).
         products (fst (delete_product pid s)) = take i (products s) @ drop (Suc i) (products s)
         \<and> map outbox (sockets (fst (delete_product pid s))) =
             map (after_publish (''product_deleted'', [field (products s ! i) ''id''])) (sockets s)
         \<and> map connected (sockets (fst (delete_product pid s))) = map connected (sockets s)"
    using i
    by (intro exI[of _ i])
       (simp add: delete_product_def Let_def io_emit_outboxes io_emit_simps splice1_def del: map_map)
next
  show "status (snd (reset_products s)) = 200" by (simp add: reset_products_def)
  show "products (fst (reset_products s)) = []" by (simp add: reset_products_def io_emit_simps)
  show "map outbox (sockets (fst (reset_products s))) =
             map (after_publish (''products_reset'', [])) (sockets s)"
    by (simp add: reset_products_def io_emit_outboxes io_emit_simps del: map_map)
  show "map connected (sockets (fst (reset_products s))) = map connected (sockets s)"
    by (simp add: reset_products_def io_emit_outboxes io_emit_simps del: map_map)
next
  assume "status (snd (checkout now c s)) = 201"
  then have ok: "nonempty_array (get_prop c ''items'')"
    by (cases "nonempty_array (get_prop c ''items'')") (simp_all add: checkout_def)
  then show "\<exists>order. orders (fst (checkout now c s)) = orders s @ [order]
         \<and> map outbox (sockets (fst (checkout now c s))) =
             map (after_publish (''new_order'', [JObj order])) (sockets s)
         \<and> map connected (sockets (fst (checkout now c s))) = map connected (sockets s)"
    by (intro exI[of _ "obj_set ''status'' (JStr (str ''pending''))
                       (obj_set ''createdAt'' (date now)
                         (obj_set ''id'' (JStr (str ''order_'' @ number_to_string (Dec now 0)))
                           (spread c)))"])
       (simp add: checkout_def Let_def io_emit_outboxes io_emit_simps del: map_map)
qed

theorem mutation_publishes_once_witness:
  "map (map fst \<circ> outbox) (sockets (fst (post_product 3 widget two_clients))) =
     [[''init_products''], [''init_products'', ''new_product'']]
   \<and> map (map fst \<circ> outbox) (sockets (fst (delete_product (str ''p1'') (fst (post_product 3 widget two_clients))))) =
     [[''init_products''], [''init_products'', ''new_product'', ''product_deleted'']]
   \<and> map (map fst \<circ> outbox) (sockets (fst (reset_products two_clients))) =
     [[''init_products''], [''init_products'', ''products_reset'']]
   \<and> map (map fst \<circ> outbox) (sockets (fst (checkout 3 cart two_clients))) =
     [[''init_products''], [''init_products'', ''new_order'']]"
proof -
  define s1 where "s1 = fst (post_product 3 widget two_clients)"
  have names: "map (map fst \<circ> outbox) ks = map (map fst) (map outbox ks)" for ks :: "socket list"
    by simp
  have ap: "map (map fst) (map (after_publish (ev, args)) ks) =
            map (\<lambda>(c, ns). if c then ns @ [ev] else ns) (zip (map connected ks) (map (map fst \<circ> outbox) ks))"
    for ev args and ks :: "socket list"
    by (induction ks) auto
  have h1: "status (snd (post_product 3 widget two_clients)) = 201" by code_simp
  have h2: "status (snd (delete_product (str ''p1'') s1)) = 200" unfolding s1_def by code_simp
  have h4: "status (snd (checkout 3 cart two_clients)) = 201" by code_simp
  from mutation_publishes_once[of 3 widget two_clients "str ''p1''" cart] h1 h4
  have a: "map (map fst \<circ> outbox) (sockets (fst (post_product 3 widget two_clients))) =
             [[''init_products''], [''init_products'', ''new_product'']]"
    and c: "map (map fst \<circ> outbox) (sockets (fst (reset_products two_clients))) =
             [[''init_products''], [''init_products'', ''products_reset'']]"
    and d: "map (map fst \<circ> outbox) (sockets (fst (checkout 3 cart two_clients))) =
             [[''init_products''], [''init_products'', ''new_order'']]"
    and k: "map connected (sockets s1) = [False, True]"
    unfolding names s1_def by (auto simp: ap two_clients_sockets simp del: map_map)
  from mutation_publishes_once[of 3 widget s1 "str ''p1''" cart] h2
  have b: "map (map fst \<circ> outbox) (sockets (fst (delete_product (str ''p1'') s1))) =
             [[''init_products''], [''init_products'', ''new_product'', ''product_deleted'']]"
    unfolding names using a k by (auto simp: ap s1_def simp del: map_map)
  from a b c d show ?thesis unfolding s1_def by blast
qed

subsection \<open>The heartbeat\<close>

text \<open>
  C1, as stated, fails twice. A client that never answers is still connected after three
  ticks of its interval, with nothing logged against it; the fourth tick is the one that
  disconnects it. And the entry logged then carries the reason the transport gives for a
  disconnect by the server, not \<^verbatim>\<open>liveness timeout\<close>, a string the code never mentions.
\<close>

theorem eviction_after_three_ticks_counterexample:
  "connected (sockets (run init_server (take 4 silent_client)) ! 0)
   \<and> disconnects_of 0 (run init_server (take 4 silent_client)) = []
   \<and> \<not> connected (sockets (run init_server silent_client) ! 0)
   \<and> map reason (disconnects_of 0 (run init_server silent_client)) = [Some ''server namespace disconnect'']
   \<and> ''server namespace disconnect'' \<noteq> ''liveness timeout''"
  by code_simp

text \<open>
  C1, amended. Take any state the server can reach and a client that connects then. If
  the client never sends \<^verbatim>\<open>pong\<close> and the transport never reports it gone, then, whatever
  else happens in between, the socket stays connected through the first three ticks of
  its interval, the counter counting them, and it is disconnected by the fourth tick
  (\<open>threshold + 2\<close> intervals, the test being \<^verbatim>\<open>missedPings > 2\<close> before the increment).
  From then on the log holds exactly one \<^verbatim>\<open>disconnect\<close> entry for it, stamped with the time
  of that fourth tick, with the reason \<^verbatim>\<open>server namespace disconnect\<close>.
\<close>

theorem silent_client_evicted_at_fourth_tick:
  assumes "never_pongs (length (sockets (run init_server pre))) evs"
    and "never_disconnects (length (sockets (run init_server pre))) evs"
  shows "(let s0 = run init_server pre;
              sid = length (sockets s0);
              s' = run (step s0 (Connection addr t0)) evs
          in (length (tick_times sid evs) \<le> 3 \<longrightarrow>
                connected (sockets s' ! sid)
                \<and> missedPings (sockets s' ! sid) = length (tick_times sid evs)
                \<and> disconnects_of sid s' = [])
           \<and> (4 \<le> length (tick_times sid evs) \<longrightarrow>
                \<not> connected (sockets s' ! sid)
                \<and> \<not> heartbeatInterval (sockets s' ! sid)
                \<and> disconnects_of sid s' =
                    [\<lparr>event = ''disconnect'',
                      client = \<lparr>client_id = sid, ip = addr, connectedAt = t0\<rparr>,
                      disconnectedAt = Some (tick_times sid evs ! 3),
                      reason = Some ''server namespace disconnect''\<rparr>]))"
proof -
  define s0 where "s0 = run init_server pre"
  define sid where "sid = length (sockets s0)"
  define s1 where "s1 = step s0 (Connection addr t0)"
  have wf0: "wf_server s0" unfolding s0_def by (rule wf_run[OF wf_init])
  note fresh = fresh_connection[OF wf0, of addr t0, folded sid_def s1_def]
  have k: "connected (sockets s1 ! sid)" "missedPings (sockets s1 ! sid) = 0"
    "clientInfo (sockets s1 ! sid) = \<lparr>client_id = sid, ip = addr, connectedAt = t0\<rparr>"
    by (simp_all add: fresh(3))
  from k have m: "missedPings (sockets s1 ! sid) \<le> 3" by simp
  from assms have q: "never_pongs sid evs" "never_disconnects sid evs"
    by (simp_all add: sid_def s0_def)
  have wf': "wf_server (run s1 evs)" by (rule wf_run[OF fresh(1)])
  from run_length[of s1 evs] fresh(2) have len': "sid < length (sockets (run s1 evs))" by simp
  from wf' len' have on: "heartbeatInterval (sockets (run s1 evs) ! sid) = connected (sockets (run s1 evs) ! sid)"
    by (simp add: wf_server_def)
  from silent_run[OF fresh(1) fresh(2) k(1) m q]
  have "(length (tick_times sid evs) \<le> 3 \<longrightarrow>
                connected (sockets (run s1 evs) ! sid)
                \<and> missedPings (sockets (run s1 evs) ! sid) = length (tick_times sid evs)
                \<and> disconnects_of sid (run s1 evs) = [])
           \<and> (4 \<le> length (tick_times sid evs) \<longrightarrow>
                \<not> connected (sockets (run s1 evs) ! sid)
                \<and> \<not> heartbeatInterval (sockets (run s1 evs) ! sid)
                \<and> disconnects_of sid (run s1 evs) =
                    [\<lparr>event = ''disconnect'',
                      client = \<lparr>client_id = sid, ip = addr, connectedAt = t0\<rparr>,
                      disconnectedAt = Some (tick_times sid evs ! 3),
                      reason = Some ''server namespace disconnect''\<rparr>])"
    unfolding on by (simp add: k fresh(4) server_disconnect_reason_def)
  then show ?thesis unfolding Let_def s1_def sid_def s0_def .
qed

theorem silent_client_evicted_at_fourth_tick_witness:
  "\<not> connected (sockets (run (step (run init_server []) (Connection ''10.0.0.1'' 0)) (tl silent_client)) ! 0)
   \<and> disconnects_of 0 (run (step (run init_server []) (Connection ''10.0.0.1'' 0)) (tl silent_client)) =
       [\<lparr>event = ''disconnect'', client = \<lparr>client_id = 0, ip = ''10.0.0.1'', connectedAt = 0\<rparr>,
         disconnectedAt = Some 40, reason = Some ''server namespace disconnect''\<rparr>]"
proof -
  have l: "length (sockets (run init_server [])) = 0" by (simp add: run_def init_server_def)
  have h: "never_pongs (length (sockets (run init_server []))) (tl silent_client)"
    "never_disconnects (length (sockets (run init_server []))) (tl silent_client)"
    unfolding l by (simp_all add: never_pongs_def never_disconnects_def silent_client_def)
  have t: "tick_times 0 (tl silent_client) = [10, 20, 30, 40]"
    by (simp add: tick_times_def silent_client_def)
  from silent_client_evicted_at_fourth_tick[OF h, of "''10.0.0.1''" 0]
  show ?thesis unfolding Let_def l t by simp
qed

text \<open>
  C5. Take any state the server can reach and a client that connects then. If every tick
  of its interval but the first finds a \<^verbatim>\<open>pong\<close> received since the tick before, as it
  does when the client answers before each tick, and the transport never reports the
  client gone, then after every finite part of the schedule, however long, the socket is
  connected, its interval is running, its counter is at most one, and no \<^verbatim>\<open>disconnect\<close>
  entry has been logged for it.
\<close>

theorem answering_client_never_evicted:
  assumes "answered (length (sockets (run init_server pre))) True evs"
    and "never_disconnects (length (sockets (run init_server pre))) evs"
  shows "(let s0 = run init_server pre;
              sid = length (sockets s0);
              s' = run (step s0 (Connection addr t0)) evs
          in connected (sockets s' ! sid)
             \<and> heartbeatInterval (sockets s' ! sid)
             \<and> missedPings (sockets s' ! sid) \<le> 1
             \<and> disconnects_of sid s' = [])"
proof -
  define s0 where "s0 = run init_server pre"
  define sid where "sid = length (sockets s0)"
  define s1 where "s1 = step s0 (Connection addr t0)"
  have wf0: "wf_server s0" unfolding s0_def by (rule wf_run[OF wf_init])
  note fresh = fresh_connection[OF wf0, of addr t0, folded sid_def s1_def]
  have k: "connected (sockets s1 ! sid)" "missedPings (sockets s1 ! sid) \<le> 1"
    "True \<longrightarrow> missedPings (sockets s1 ! sid) = 0"
    by (simp_all add: fresh(3))
  from assms have q: "answered sid True evs" "never_disconnects sid evs"
    by (simp_all add: sid_def s0_def)
  have wf': "wf_server (run s1 evs)" by (rule wf_run[OF fresh(1)])
  from run_length[of s1 evs] fresh(2) have len': "sid < length (sockets (run s1 evs))" by simp
  from wf' len' have on: "heartbeatInterval (sockets (run s1 evs) ! sid) = connected (sockets (run s1 evs) ! sid)"
    by (simp add: wf_server_def)
  from answered_run[OF fresh(1) fresh(2) k q]
  have "connected (sockets (run s1 evs) ! sid)
             \<and> heartbeatInterval (sockets (run s1 evs) ! sid)
             \<and> missedPings (sockets (run s1 evs) ! sid) \<le> 1
             \<and> disconnects_of sid (run s1 evs) = []"
    unfolding on by (simp add: fresh(4))
  then show ?thesis unfolding Let_def s1_def sid_def s0_def .
qed

theorem answering_client_never_evicted_witness:
  "connected (sockets (run (step (run init_server []) (Connection ''10.0.0.1'' 0)) answering_client) ! 0)
   \<and> disconnects_of 0 (run (step (run init_server []) (Connection ''10.0.0.1'' 0)) answering_client) = []"
proof -
  have l: "length (sockets (run init_server [])) = 0" by (simp add: run_def init_server_def)
  have h: "answered (length (sockets (run init_server []))) True answering_client"
    "never_disconnects (length (sockets (run init_server []))) answering_client"
    unfolding l by (simp_all add: never_disconnects_def answering_client_def)
  from answering_client_never_evicted[OF h, of "''10.0.0.1''" 0]
  show ?thesis unfolding Let_def l by simp
qed

text \<open>
  C6. Take any state the server can reach, a socket that is connected in it and an event
  after which the socket is no longer connected. The event is either the transport
  reporting the socket gone, whatever the reason (the client left, the transport failed
  or was closed), or the tick of the socket's own interval that finds more than two
  pings unanswered. Either way the interval is cleared once the event has been handled,
  and handling it has sent the socket nothing. Whatever happens afterwards, the socket
  stays gone, its interval stays cleared, so that a tick of it does nothing at all, and
  the socket is sent nothing more: no further probe and no other message.
\<close>

theorem deregistration_stops_probes:
  assumes "sid < length (sockets (run init_server pre))"
    and "connected (sockets (run init_server pre) ! sid)"
    and "\<not> connected (sockets (step (run init_server pre) ev) ! sid)"
  shows "(let s0 = run init_server pre;
              s1 = step s0 ev;
              s' = run s1 evs
          in ((\<exists>why now. ev = Disconnect sid why now)
                \<or> (\<exists>now. ev = Tick sid now \<and> 2 < missedPings (sockets s0 ! sid)))
             \<and> \<not> heartbeatInterval (sockets s1 ! sid)
             \<and> outbox (sockets s1 ! sid) = outbox (sockets s0 ! sid)
             \<and> \<not> connected (sockets s' ! sid)
             \<and> \<not> heartbeatInterval (sockets s' ! sid)
             \<and> outbox (sockets s' ! sid) = outbox (sockets s0 ! sid)
             \<and> step s' (Tick sid later) = s')"
proof -
  define s0 where "s0 = run init_server pre"
  define s1 where "s1 = step s0 ev"
  let ?k = "sockets s0 ! sid"
  have wf0: "wf_server s0" unfolding s0_def by (rule wf_run[OF wf_init])
  from assms have len: "sid < length (sockets s0)" and c: "connected ?k"
    and gone: "\<not> connected (sockets s1 ! sid)"
    by (simp_all add: s0_def s1_def)
  from wf0 len c have on: "heartbeatInterval ?k" by (simp add: wf_server_def)
  have wf1: "wf_server s1" unfolding s1_def using wf0 by (rule wf_step)
  have len1: "sid < length (sockets s1)" unfolding s1_def using len step_length[of s0 ev] by simp
  consider (tick) "is_tick sid ev" | (pong) "is_pong sid ev" | (disc) "is_disconnect sid ev"
    | (other) "\<not> is_tick sid ev" "\<not> is_pong sid ev" "\<not> is_disconnect sid ev" by blast
  then have path: "((\<exists>why now. ev = Disconnect sid why now)
                \<or> (\<exists>now. ev = Tick sid now \<and> 2 < missedPings ?k))
             \<and> \<not> heartbeatInterval (sockets s1 ! sid)
             \<and> outbox (sockets s1 ! sid) = outbox ?k"
  proof cases
    case tick
    then obtain now where ev: "ev = Tick sid now" by (cases ev) auto
    show ?thesis
    proof (cases "missedPings ?k \<le> 2")
      case True
      from tick_quiet(1)[OF len c on True, of now] c gone show ?thesis
        by (simp add: s1_def ev)
    next
      case False
      then have gt: "missedPings ?k > 2" by simp
      from tick_evicts(1)[OF len c on gt, of now] gt show ?thesis
        by (simp add: s1_def ev)
    qed
  next
    case pong
    then have ev: "ev = Pong sid" by (cases ev) auto
    from pong_resets(1)[OF len c] c gone show ?thesis by (simp add: s1_def ev)
  next
    case disc
    then obtain why now where ev: "ev = Disconnect sid why now" by (cases ev) auto
    from disconnect_closes(1)[OF len c, of why now] show ?thesis by (simp add: s1_def ev)
  next
    case other
    from step_other[OF len wf0 other] c gone show ?thesis by (simp add: s1_def)
  qed
  from run_gone[OF len1 wf1 gone, of evs]
  have same: "sockets (run s1 evs) ! sid = sockets s1 ! sid" by simp
  from path same have off: "\<not> heartbeatInterval (sockets (run s1 evs) ! sid)" by simp
  then have quiet: "step (run s1 evs) (Tick sid later) = run s1 evs" by simp
  from path same gone quiet show ?thesis
    unfolding Let_def s0_def[symmetric] s1_def[symmetric] by simp
qed

theorem deregistration_stops_probes_witness:
  "map fst (outbox (sockets (run (step (run init_server (take 4 silent_client)) (Tick 0 40))
                      [Tick 0 50, Request (PostProduct widget) 60, Tick 0 70]) ! 0)) =
     [''init_products'', ''ping'', ''ping'', ''ping'']
   \<and> \<not> heartbeatInterval (sockets (run (step (run init_server (take 4 silent_client)) (Tick 0 40))
                      [Tick 0 50, Request (PostProduct widget) 60, Tick 0 70]) ! 0)
   \<and> map fst (outbox (sockets (run (step (run init_server (take 2 silent_client))
                                   (Disconnect 0 ''transport error'' 15))
                      [Tick 0 20, Request ResetProducts 25]) ! 0)) =
     [''init_products'', ''ping'']
   \<and> \<not> heartbeatInterval (sockets (run (step (run init_server (take 2 silent_client))
                                   (Disconnect 0 ''transport error'' 15))
                      [Tick 0 20, Request ResetProducts 25]) ! 0)"
proof -
  have a: "0 < length (sockets (run init_server (take 4 silent_client)))"
    "connected (sockets (run init_server (take 4 silent_client)) ! 0)"
    "\<not> connected (sockets (step (run init_server (take 4 silent_client)) (Tick 0 40)) ! 0)"
    "map fst (outbox (sockets (run init_server (take 4 silent_client)) ! 0)) =
       [''init_products'', ''ping'', ''ping'', ''ping'']"
    by code_simp+
  have b: "0 < length (sockets (run init_server (take 2 silent_client)))"
    "connected (sockets (run init_server (take 2 silent_client)) ! 0)"
    "\<not> connected (sockets (step (run init_server (take 2 silent_client))
                        (Disconnect 0 ''transport error'' 15)) ! 0)"
    "map fst (outbox (sockets (run init_server (take 2 silent_client)) ! 0)) =
       [''init_products'', ''ping'']"
    by code_simp+
  from deregistration_stops_probes[OF a(1,2,3),
         of "[Tick 0 50, Request (PostProduct widget) 60, Tick 0 70]"]
       deregistration_stops_probes[OF b(1,2,3), of "[Tick 0 20, Request ResetProducts 25]"]
  show ?thesis unfolding Let_def by (simp add: a(4) b(4))
qed

subsection \<open>Identifiers and loose equality\<close>

text \<open>
  C10. The claim does not hold of the code. Lookup and removal compare the stored id
  with the parameter by \<^verbatim>\<open>==\<close>, under which the number 5 equals the string
  \<^verbatim>\<open>5\<close> and not the string \<^verbatim>\<open>6\<close>, and a product stored alone with the id 5 is
  found and removed by the parameter \<^verbatim>\<open>5\<close>. But \<^verbatim>\<open>find\<close> and \<^verbatim>\<open>findIndex\<close> compare
  the products in their stored order, and the comparison throws on an id such as
  \<^verbatim>\<open>{"toString": 1}\<close>, which validation accepts: with such a product stored before
  it, the product with the id 5 is neither found nor removed by the parameter \<^verbatim>\<open>5\<close>,
  and both requests are answered with status 500.
\<close>

theorem lookup_uncoercible_id:
  "loose_eq_str (JNum (Dec 5 0)) (str ''5'') = Some True
   \<and> loose_eq_str (JNum (Dec 5 0)) (str ''6'') = Some False
   \<and> loose_eq_str (JObj [(''toString'', JNum (Dec 1 0))]) (str ''5'') = None
   \<and> get_product (str ''5'') (run init_server [Request (PostProduct gadget) 1]) =
       (run init_server [Request (PostProduct gadget) 1],
        \<lparr>status = 200,
         json = JObj [(''success'', JBool True),
                      (''data'', JObj (obj_set ''addedAt'' (date 1) (spread gadget)))]\<rparr>)
   \<and> products (fst (delete_product (str ''5'') (run init_server [Request (PostProduct gadget) 1]))) = []
   \<and> get_product (str ''6'') (run init_server [Request (PostProduct gadget) 1]) =
       (run init_server [Request (PostProduct gadget) 1], not_found)
   \<and> status (snd (post_product 1 boxed_widget init_server)) = 201
   \<and> get_product (str ''5'')
         (run init_server [Request (PostProduct boxed_widget) 1, Request (PostProduct gadget) 2]) =
       (run init_server [Request (PostProduct boxed_widget) 1, Request (PostProduct gadget) 2],
        internal_server_error)
   \<and> delete_product (str ''5'')
         (run init_server [Request (PostProduct boxed_widget) 1, Request (PostProduct gadget) 2]) =
       (run init_server [Request (PostProduct boxed_widget) 1, Request (PostProduct gadget) 2],
        internal_server_error)
   \<and> status internal_server_error = 500"
  by code_simp

subsection \<open>Listing\<close>

text \<open>
  C8. The claim does not hold of the code. Validation accepts any truthy name, so a
  product whose name is a number can be stored; a listing with a name filter then calls
  \<^verbatim>\<open>toLowerCase\<close> on that number, the call throws, and the answer is status 500 with
  no list, also when other products do match. A price that cannot be coerced, such as
  \<^verbatim>\<open>{"toString": 1}\<close>, does the same to a listing with a price bound. Without a name
  filter the product with the numeric name is listed. On a store of products with string
  names and numeric prices the listing is what the claim says: the name is compared
  without regard to case, a price equal to a bound is within it, and the state is left
  as it was.
\<close>

theorem listing_uncoercible_name:
  "status (snd (post_product 1 numbered_widget init_server)) = 201
   \<and> get_products (JStr (str ''w'')) JUndefined JUndefined
         (run init_server [Request (PostProduct numbered_widget) 1]) =
       (run init_server [Request (PostProduct numbered_widget) 1], internal_server_error)
   \<and> get_products (JStr (str ''w'')) JUndefined JUndefined
         (run init_server [Request (PostProduct widget) 1, Request (PostProduct numbered_widget) 2]) =
       (run init_server [Request (PostProduct widget) 1, Request (PostProduct numbered_widget) 2],
        internal_server_error)
   \<and> status (snd (post_product 1 boxed_price init_server)) = 201
   \<and> get_products JUndefined (JStr (str ''1'')) JUndefined
         (run init_server [Request (PostProduct boxed_price) 1]) =
       (run init_server [Request (PostProduct boxed_price) 1], internal_server_error)
   \<and> status internal_server_error = 500
   \<and> snd (get_products JUndefined JUndefined JUndefined
         (run init_server [Request (PostProduct numbered_widget) 1])) =
       \<lparr>status = 200,
        json = JObj [(''success'', JBool True), (''count'', JNum (Dec 1 0)),
                     (''data'', JArr [JObj (obj_set ''addedAt'' (date 1) (spread numbered_widget))])]\<rparr>
   \<and> get_products (JStr (str ''WID'')) (JStr (str ''9.5'')) (JStr (str ''9.5'')) shop =
       (shop,
        \<lparr>status = 200,
         json = JObj [(''success'', JBool True), (''count'', JNum (Dec 1 0)),
                      (''data'', JArr [JObj (obj_set ''addedAt'' (date 1) (spread widget))])]\<rparr>)
   \<and> snd (get_products (JStr (str ''gAD'')) (JStr (str ''9.6'')) JUndefined shop) =
       \<lparr>status = 200,
        json = JObj [(''success'', JBool True), (''count'', JNum (Dec 1 0)),
                     (''data'', JArr [JObj (obj_set ''addedAt'' (date 2) (spread gadget))])]\<rparr>
   \<and> snd (get_products (JStr (str ''gAD'')) JUndefined (JStr (str ''12.4'')) shop) =
       \<lparr>status = 200,
        json = JObj [(''success'', JBool True), (''count'', JNum (Dec 0 0)), (''data'', JArr [])]\<rparr>"
  by code_simp

end
